theory Spec2Isabelle
  imports Main
begin

section \<open>Library functions used by sync.go\<close>

text \<open>
  Go strings are byte sequences; a path, a key and a file's content are all modelled as
  \<open>string\<close> (a list of 8-bit characters).
\<close>

type_synonym path = string
type_synonym bytes = string

text \<open>
  \<^verbatim>\<open>filepath.Ext\<close>: the loop runs from the last byte backwards while the byte is not a
  path separator and returns \<^verbatim>\<open>path[i:]\<close> at the first dot it meets; otherwise the empty
  string. The first argument of \<open>Ext_loop\<close> is \<^verbatim>\<open>path[:i+1]\<close> reversed, the second is
  \<^verbatim>\<open>path[i+1:]\<close>.
\<close>

fun Ext_loop :: "string \<Rightarrow> string \<Rightarrow> string" where
  "Ext_loop [] suffix = []"
| "Ext_loop (c # cs) suffix =
     (if c = CHR ''/'' then []
      else if c = CHR ''.'' then c # suffix
      else Ext_loop cs (c # suffix))"

definition Ext :: "path \<Rightarrow> string" where
  "Ext p = Ext_loop (rev p) []"

text \<open>
  \<^verbatim>\<open>strings.ToLower\<close> on the ASCII range: the letters A to Z are mapped to a to z and
  every other byte is kept. (On bytes above 127 Go case-maps whole UTF-8 runes; the two
  tables below have ASCII keys only, and no dot is ever produced or removed.)
\<close>

definition lower_byte :: "char \<Rightarrow> char" where
  "lower_byte c =
     (case map_of (zip ''ABCDEFGHIJKLMNOPQRSTUVWXYZ'' ''abcdefghijklmnopqrstuvwxyz'') c of
        None \<Rightarrow> c
      | Some l \<Rightarrow> l)"

definition ToLower :: "string \<Rightarrow> string" where
  "ToLower s = map lower_byte s"

section \<open>The two global tables\<close>

definition contentTypeMap :: "string \<rightharpoonup> string" where
  "contentTypeMap = map_of
     [(''css'', ''text/css''),
      (''html'', ''text/html''),
      (''htm'', ''text/html''),
      (''ico'', ''image/x-ico''),
      (''js'', ''text/javascript''),
      (''jpg'', ''image/jpeg''),
      (''gif'', ''image/gif''),
      (''png'', ''image/png''),
      (''xml'', ''application/xml''),
      (''svg'', ''image/svg+xml''),
      (''jpeg'', ''image/jpeg'')]"

definition compressBlacklist :: "string \<rightharpoonup> bool" where
  "compressBlacklist = map_of
     [(''gif'', True),
      (''jpg'', True),
      (''png'', True),
      (''jpeg'', True),
      (''psd'', True),
      (''ai'', True)]"

text \<open>Indexing a Go \<^verbatim>\<open>map[string]bool\<close> at a missing key gives \<^verbatim>\<open>false\<close>.\<close>

definition index_bool :: "(string \<rightharpoonup> bool) \<Rightarrow> string \<Rightarrow> bool" where
  "index_bool m k = (case m k of None \<Rightarrow> False | Some b \<Rightarrow> b)"

section \<open>The part of net/url the worker uses\<close>

text \<open>
  The worker calls \<^verbatim>\<open>url.ParseRequestURI("/" + file.key)\<close> and then \<^verbatim>\<open>String()\<close> on the
  result. For a raw URL that begins with a slash the parser finds no scheme, no opaque
  part and no authority; it splits the query off at the first question mark and hands the
  rest to \<^verbatim>\<open>setPath\<close>. The functions below are Go's, specialised to the mode
  \<^verbatim>\<open>encodePath\<close>.
\<close>

definition stringContainsCTLByte :: "string \<Rightarrow> bool" where
  "stringContainsCTLByte s = list_ex (\<lambda>c. (of_char c :: nat) < 32 \<or> (of_char c :: nat) = 127) s"

definition ishex :: "char \<Rightarrow> bool" where
  "ishex c = (let n = (of_char c :: nat) in
     (48 \<le> n \<and> n \<le> 57) \<or> (97 \<le> n \<and> n \<le> 102) \<or> (65 \<le> n \<and> n \<le> 70))"

definition unhex :: "char \<Rightarrow> nat" where
  "unhex c = (let n = (of_char c :: nat) in
     if 48 \<le> n \<and> n \<le> 57 then n - 48
     else if 97 \<le> n \<and> n \<le> 102 then n - 97 + 10
     else if 65 \<le> n \<and> n \<le> 70 then n - 65 + 10
     else 0)"

text \<open>\<^verbatim>\<open>unescape(s, encodePath)\<close>: \<open>None\<close> is the \<^verbatim>\<open>EscapeError\<close>.\<close>

fun unescape :: "string \<Rightarrow> string option" where
  "unescape [] = Some []"
| "unescape (c # s) =
     (if c = CHR ''%'' then
        (case s of
           a # b # rest \<Rightarrow>
             if ishex a \<and> ishex b
             then map_option ((#) (char_of (unhex a * 16 + unhex b))) (unescape rest)
             else None
         | _ \<Rightarrow> None)
      else map_option ((#) c) (unescape s))"

definition shouldEscape :: "char \<Rightarrow> bool" where
  "shouldEscape c = (let n = (of_char c :: nat) in
     if (97 \<le> n \<and> n \<le> 122) \<or> (65 \<le> n \<and> n \<le> 90) \<or> (48 \<le> n \<and> n \<le> 57) then False
     else if c \<in> set ''-_.~'' then False
     else if c \<in> set ''$&+,/:;=?@'' then c = CHR ''?''
     else True)"

definition upperhex :: "nat \<Rightarrow> char" where
  "upperhex n = ''0123456789ABCDEF'' ! n"

definition escape :: "string \<Rightarrow> string" where
  "escape s = concat (map (\<lambda>c.
     if shouldEscape c
     then [CHR ''%'', upperhex ((of_char c :: nat) div 16), upperhex ((of_char c :: nat) mod 16)]
     else [c]) s)"

definition validEncoded :: "string \<Rightarrow> bool" where
  "validEncoded s = list_all (\<lambda>c.
     if c \<in> set ''!$&'' \<or> c = CHR 0x27 \<or> c \<in> set ''()*+,;=:@'' then True
     else if c \<in> set ''[]'' then True
     else if c = CHR ''%'' then True
     else \<not> shouldEscape c) s"

text \<open>
  The fields of \<^verbatim>\<open>url.URL\<close> that can be set for a raw URL beginning with a slash; Scheme,
  Opaque, User, Host and Fragment stay empty.
\<close>

record URL =
  Path :: string
  RawPath :: string
  ForceQuery :: bool
  RawQuery :: string

definition setPath :: "string \<Rightarrow> bool \<Rightarrow> string \<Rightarrow> URL option" where
  "setPath p fq q =
     (case unescape p of
        None \<Rightarrow> None
      | Some pth \<Rightarrow>
          Some \<lparr>Path = pth, RawPath = (if p = escape pth then [] else p),
                ForceQuery = fq, RawQuery = q\<rparr>)"

text \<open>
  \<^verbatim>\<open>url.ParseRequestURI\<close> on a raw URL that begins with a slash (the only kind the worker
  passes); \<open>None\<close> is the returned error, with which the returned pointer is nil.
\<close>

definition ParseRequestURI :: "string \<Rightarrow> URL option" where
  "ParseRequestURI rawURL =
     (if stringContainsCTLByte rawURL then None
      else if rawURL \<noteq> [] \<and> last rawURL = CHR ''?'' \<and> count_list rawURL CHR ''?'' = 1
      then setPath (butlast rawURL) True []
      else setPath (takeWhile (\<lambda>c. c \<noteq> CHR ''?'') rawURL) False
             (drop 1 (dropWhile (\<lambda>c. c \<noteq> CHR ''?'') rawURL)))"

definition EscapedPath :: "URL \<Rightarrow> string" where
  "EscapedPath u =
     (if RawPath u \<noteq> [] \<and> validEncoded (RawPath u) \<and> unescape (RawPath u) = Some (Path u)
      then RawPath u
      else if Path u = ''*'' then ''*''
      else escape (Path u))"

definition URL_String :: "URL \<Rightarrow> string" where
  "URL_String u =
     (let p = EscapedPath u
      in (if CHR '':'' \<in> set (takeWhile (\<lambda>c. c \<noteq> CHR ''/'') p) then ''./'' else [])
         @ p
         @ (if ForceQuery u \<or> RawQuery u \<noteq> [] then CHR ''?'' # RawQuery u else []))"

section \<open>The world the program runs in\<close>

text \<open>
  Errors are values. \<open>ErrOpen\<close> is a failed \<^verbatim>\<open>os.Open\<close>, \<open>ErrInvalid\<close> what every method
  of a nil \<^verbatim>\<open>*os.File\<close> returns, \<open>ErrTempFile\<close> a failed \<^verbatim>\<open>ioutil.TempFile\<close>, \<open>ErrAws\<close>
  an error of a call to the object store or to the content-delivery service.
\<close>

datatype go_error = ErrOpen | ErrInvalid | ErrTempFile | ErrAws

text \<open>
  What lies outside sync.go, taken as parameters.
  \<^item> \<open>md5hex\<close> is \<^verbatim>\<open>fmt.Sprintf("%x", md5 sum)\<close>, \<open>gzipBest\<close> the gzip stream written at
    \<^verbatim>\<open>gzip.BestCompression\<close>, \<open>DetectContentType\<close> is \<^verbatim>\<open>http.DetectContentType\<close>.
  \<^item> \<open>TempFile\<close> is \<^verbatim>\<open>ioutil.TempFile("", "oursky")\<close>: the name of the file it creates
    in the file system given, or \<open>None\<close> when it fails.
  \<^item> \<open>CheckErr\<close> and \<open>DisplayAwsErr\<close> are helpers of the repository that sync.go calls
    and does not define. Each tells, for a non-nil error, whether the helper terminates
    the process (\<open>True\<close>) or returns; on a nil error both are taken to return.
  \<^item> \<open>GetCallerReference\<close> is a helper of the same kind, returning a string.
  \<^item> \<open>uploadFails\<close> tells which put requests the object store answers with an error,
    \<open>ListDistributions\<close> is the distribution list of the response (\<open>None\<close> when the
    response carries a nil list, as it does when the call failed), and
    \<open>createInvalidationFails\<close> and \<open>listObjectsFails\<close> tell whether those calls fail.
\<close>

record Distribution =
  Id :: string
  Aliases :: "string list"

record UploadInput =
  Bucket :: string
  Key :: string
  Body :: "bytes option"
  CacheControl :: string
  ContentEncoding :: string
  ContentType :: string
  ACL :: string

record externals =
  md5hex :: "bytes \<Rightarrow> string"
  gzipBest :: "bytes \<Rightarrow> bytes"
  DetectContentType :: "bytes \<Rightarrow> string"
  TempFile :: "(path \<rightharpoonup> bytes) \<Rightarrow> path option"
  CheckErr :: "go_error \<Rightarrow> bool"
  DisplayAwsErr :: "go_error \<Rightarrow> bool"
  GetCallerReference :: string
  uploadFails :: "UploadInput \<Rightarrow> bool"
  listObjectsFails :: bool
  ListDistributions :: "Distribution list option"
  createInvalidationFails :: bool

text \<open>\<^verbatim>\<open>os.FileInfo\<close>, as far as the program reads it, and the program's own \<^verbatim>\<open>FileInfo\<close>.\<close>

record os_FileInfo =
  IsDir :: bool
  Size :: int

record FileInfo =
  path :: path
  key :: string
  fileInfo :: os_FileInfo

text \<open>The lines the program prints, by the statement that prints them.\<close>

datatype line =
    Compressing path
  | DetectedMIME string
  | HashError path
  | Uploading path string
  | SendInvalidate string
  | PrintKey string

datatype cloudfront_call =
    CallListDistributions
  | CallCreateInvalidation string string int "string list"

datatype status = Running | Exited | Panicked

text \<open>
  The state threaded through the program: the local files that can be opened, with their
  content (\<open>files\<close>); the objects of the bucket (\<open>remote\<close>, key and stored bytes, latest
  first); what was printed; every call of \<^verbatim>\<open>uploader.Upload\<close> with whether it succeeded;
  what was sent on \<^verbatim>\<open>doneChan\<close>; the calls to the content-delivery service; and whether
  the process is still running, has been terminated by a helper, or has panicked.
\<close>

record world =
  files :: "path \<rightharpoonup> bytes"
  remote :: "(string \<times> bytes) list"
  stdout :: "line list"
  uploads :: "(UploadInput \<times> bool) list"
  doneChan :: "string list"
  cloudfront :: "cloudfront_call list"
  status :: status

definition println :: "line \<Rightarrow> world \<Rightarrow> world" where
  "println l w = w\<lparr>stdout := stdout w @ [l]\<rparr>"

definition exit_process :: "world \<Rightarrow> world" where
  "exit_process w = w\<lparr>status := Exited\<rparr>"

definition panic :: "world \<Rightarrow> world" where
  "panic w = w\<lparr>status := Panicked\<rparr>"

section \<open>Hashfile\<close>

text \<open>
  \<open>None\<close>: the process was terminated inside \<open>CheckErr\<close>. Otherwise the pair the function
  returns. When the file cannot be opened and \<open>CheckErr\<close> returns, \<^verbatim>\<open>file\<close> is nil,
  \<^verbatim>\<open>io.Copy\<close> copies nothing (its error is dropped) and the digest is that of no bytes.
\<close>

definition Hashfile :: "externals \<Rightarrow> (path \<rightharpoonup> bytes) \<Rightarrow> path \<Rightarrow> (string \<times> go_error option) option" where
  "Hashfile ext fs filename =
     (case fs filename of
        None \<Rightarrow>
          if CheckErr ext ErrOpen then None
          else Some (md5hex ext [], None)
      | Some content \<Rightarrow> Some (md5hex ext content, None))"

section \<open>UploadFileHandler: one iteration of the worker's loop\<close>

subsection \<open>Compression (lines 159 to 179)\<close>

text \<open>The condition of line 161, on the suffix computed at line 160.\<close>

definition shouldCompress :: "FileInfo \<Rightarrow> bool" where
  "shouldCompress file =
     (\<not> index_bool compressBlacklist (ToLower (Ext (path file))) \<and> Size (fileInfo file) > 500)"

text \<open>
  The body of the conditional. The result is the world, \<^verbatim>\<open>uploadPath\<close> and
  \<^verbatim>\<open>contentEncoding\<close>. When no temporary file could be made and \<open>CheckErr\<close> returns, the
  statements up to \<^verbatim>\<open>compressedFile.Name()\<close> run on a nil file and that call panics.
  When the source file cannot be opened and \<open>CheckErr\<close> returns, nothing is copied and
  the temporary file holds the gzip stream of no bytes.
\<close>

definition compress :: "externals \<Rightarrow> FileInfo \<Rightarrow> world \<Rightarrow> world \<times> path \<times> string" where
  "compress ext file w0 =
     (let w = println (Compressing (path file)) w0 in
      case TempFile ext (files w) of
        None \<Rightarrow>
          if CheckErr ext ErrTempFile then (exit_process w, path file, [])
          else if files w (path file) = None \<and> CheckErr ext ErrOpen
          then (exit_process w, path file, [])
          else (panic w, path file, [])
      | Some tmp \<Rightarrow>
          let w1 = w\<lparr>files := (files w)(tmp \<mapsto> [])\<rparr> in
          (case files w1 (path file) of
             None \<Rightarrow>
               if CheckErr ext ErrOpen then (exit_process w1, path file, [])
               else (w1\<lparr>files := (files w1)(tmp \<mapsto> gzipBest ext [])\<rparr>, tmp, ''gzip'')
           | Some content \<Rightarrow>
               (w1\<lparr>files := (files w1)(tmp \<mapsto> gzipBest ext content)\<rparr>, tmp, ''gzip'')))"

definition transform :: "externals \<Rightarrow> FileInfo \<Rightarrow> world \<Rightarrow> world \<times> path \<times> string" where
  "transform ext file w =
     (if shouldCompress file then compress ext file w else (w, path file, []))"

subsection \<open>Content type (lines 181 to 195)\<close>

text \<open>
  The buffer of 512 bytes after one \<^verbatim>\<open>Read\<close>: the first bytes of the file, and zero
  bytes where the file ended before.
\<close>

definition byte512 :: "bytes \<Rightarrow> bytes" where
  "byte512 content = take 512 content @ replicate (512 - length content) (CHR 0x00)"

text \<open>
  The branch of a table miss. With a file that cannot be opened and a \<open>CheckErr\<close> that
  returns, \<^verbatim>\<open>f.Read\<close> on the nil file gives \<open>ErrInvalid\<close>, which goes to \<open>CheckErr\<close> as
  well, and the buffer stays zero.
\<close>

definition sniff :: "externals \<Rightarrow> FileInfo \<Rightarrow> world \<Rightarrow> world \<times> string" where
  "sniff ext file w =
     (case files w (path file) of
        None \<Rightarrow>
          if CheckErr ext ErrOpen then (exit_process w, [])
          else if CheckErr ext ErrInvalid then (exit_process w, [])
          else (let t = DetectContentType ext (byte512 [])
                in (println (DetectedMIME t) w, t))
      | Some content \<Rightarrow>
          (let t = DetectContentType ext (byte512 content)
           in (println (DetectedMIME t) w, t)))"

definition contentTypeOf :: "externals \<Rightarrow> FileInfo \<Rightarrow> world \<Rightarrow> world \<times> string" where
  "contentTypeOf ext file w =
     (case contentTypeMap (ToLower (Ext (path file))) of
        Some t \<Rightarrow> (w, t)
      | None \<Rightarrow> sniff ext file w)"

subsection \<open>Lines 157 to 197: everything before the comparison\<close>

text \<open>
  What the iteration has in hand when it reaches line 198: \<^verbatim>\<open>uploadPath\<close>,
  \<^verbatim>\<open>contentEncoding\<close>, \<^verbatim>\<open>contentType\<close>, \<^verbatim>\<open>hash\<close> and \<^verbatim>\<open>err\<close>.
\<close>

record prepared =
  uploadPath :: path
  contentEncoding :: string
  contentType :: string
  hash :: string
  hashErr :: "go_error option"

text \<open>The second component is \<open>None\<close> when the process stopped before line 198.\<close>

definition prepare :: "externals \<Rightarrow> FileInfo \<Rightarrow> world \<Rightarrow> world \<times> prepared option" where
  "prepare ext file w0 =
     (case transform ext file w0 of
        (w1, up, ce) \<Rightarrow>
          if status w1 \<noteq> Running then (w1, None)
          else
            (case contentTypeOf ext file w1 of
               (w2, ct) \<Rightarrow>
                 if status w2 \<noteq> Running then (w2, None)
                 else
                   (case Hashfile ext (files w2) up of
                      None \<Rightarrow> (exit_process w2, None)
                    | Some (h, e) \<Rightarrow>
                        (w2, Some \<lparr>uploadPath = up, contentEncoding = ce, contentType = ct,
                                   hash = h, hashErr = e\<rparr>))))"

subsection \<open>Lines 198 to 226: comparison, upload, report\<close>

text \<open>
  The object store: a put request with a nil body fails, one the store rejects fails, and
  any other replaces the object stored under the key.
\<close>

definition Upload :: "externals \<Rightarrow> UploadInput \<Rightarrow> world \<Rightarrow> world \<times> go_error option" where
  "Upload ext inp w =
     (case Body inp of
        None \<Rightarrow> (w\<lparr>uploads := uploads w @ [(inp, False)]\<rparr>, Some ErrInvalid)
      | Some b \<Rightarrow>
          if uploadFails ext inp
          then (w\<lparr>uploads := uploads w @ [(inp, False)]\<rparr>, Some ErrAws)
          else (w\<lparr>uploads := uploads w @ [(inp, True)],
                  remote := (Key inp, b) # filter (\<lambda>kv. fst kv \<noteq> Key inp) (remote w)\<rparr>,
                None))"

text \<open>The two-valued index expression \<^verbatim>\<open>etag, ok := (*s3Keys)[file.key]\<close>.\<close>

definition index_ok :: "(string \<rightharpoonup> string) \<Rightarrow> string \<Rightarrow> string \<times> bool" where
  "index_ok m k = (case m k of None \<Rightarrow> ([], False) | Some v \<Rightarrow> (v, True))"

definition upParams :: "string \<Rightarrow> FileInfo \<Rightarrow> prepared \<Rightarrow> bytes option \<Rightarrow> UploadInput" where
  "upParams bucket file p fileIO =
     \<lparr>Bucket = bucket, Key = key file, Body = fileIO, CacheControl = ''max-age=900'',
      ContentEncoding = contentEncoding p, ContentType = contentType p,
      ACL = ''public-read''\<rparr>"

definition compare_and_upload ::
  "externals \<Rightarrow> string \<Rightarrow> (string \<rightharpoonup> string) \<Rightarrow> bool \<Rightarrow> FileInfo \<Rightarrow> prepared \<Rightarrow> world \<Rightarrow> world" where
  "compare_and_upload ext bucket s3Keys reUpload file p w2 =
     (let w3 = (if hashErr p \<noteq> None then println (HashError (path file)) w2 else w2) in
      case index_ok s3Keys (key file) of
        (etag, ok) \<Rightarrow>
          if ok \<and> \<not> reUpload \<and> etag = hash p then w3
          else
            (let w4 = println (Uploading (uploadPath p) (key file)) w3;
                 fileIO = files w4 (uploadPath p)
             in case Upload ext (upParams bucket file p fileIO) w4 of
                  (w5, Some e) \<Rightarrow> if DisplayAwsErr ext e then exit_process w5 else w5
                | (w5, None) \<Rightarrow>
                    (case ParseRequestURI (CHR ''/'' # key file) of
                       None \<Rightarrow> panic w5
                     | Some u \<Rightarrow> w5\<lparr>doneChan := doneChan w5 @ [URL_String u]\<rparr>)))"

definition handle_file ::
  "externals \<Rightarrow> string \<Rightarrow> (string \<rightharpoonup> string) \<Rightarrow> bool \<Rightarrow> FileInfo \<Rightarrow> world \<Rightarrow> world" where
  "handle_file ext bucket s3Keys reUpload file w =
     (case prepare ext file w of
        (w', None) \<Rightarrow> w'
      | (w', Some p) \<Rightarrow> compare_and_upload ext bucket s3Keys reUpload file p w')"

text \<open>
  The loop over the channel, for one worker: the files in the order they were sent. A
  process that has stopped handles no further file.
\<close>

fun UploadFileHandler ::
  "externals \<Rightarrow> string \<Rightarrow> (string \<rightharpoonup> string) \<Rightarrow> bool \<Rightarrow> FileInfo list \<Rightarrow> world \<Rightarrow> world" where
  "UploadFileHandler ext bucket s3Keys reUpload [] w = w"
| "UploadFileHandler ext bucket s3Keys reUpload (file # rest) w =
     (let w' = handle_file ext bucket s3Keys reUpload file w
      in if status w' = Running then UploadFileHandler ext bucket s3Keys reUpload rest w'
         else w')"
section \<open>InvalidCloudFront\<close>

text \<open>
  The loops of lines 109 to 118. The inner loop runs over all the aliases of a
  distribution and keeps the identifier of the distribution when an alias equals the
  domain; the outer loop stops after the first distribution that left the identifier
  non-empty.
\<close>

definition matchAliases :: "string \<Rightarrow> Distribution \<Rightarrow> string \<Rightarrow> string" where
  "matchAliases domain distribution distributionId =
     fold (\<lambda>cname acc. if cname = domain then Id distribution else acc)
       (Aliases distribution) distributionId"

fun findDistribution :: "string \<Rightarrow> Distribution list \<Rightarrow> string \<Rightarrow> string" where
  "findDistribution domain [] distributionId = distributionId"
| "findDistribution domain (distribution # rest) distributionId =
     (let distributionId' = matchAliases domain distribution distributionId
      in if distributionId' \<noteq> [] then distributionId'
         else findDistribution domain rest distributionId')"

text \<open>
  The function returns at once on an empty list. Otherwise it lists the distributions;
  the error of that call is not looked at, and the loop dereferences
  \<^verbatim>\<open>resp.DistributionList\<close>, which panics when the response carries none. Then it prints
  the identifier and every key, and creates one invalidation whose items are the whole
  list.
\<close>

definition InvalidCloudFront :: "externals \<Rightarrow> string \<Rightarrow> string list \<Rightarrow> world \<Rightarrow> world" where
  "InvalidCloudFront ext domain paths w =
     (if length paths = 0 then w
      else
        (let w1 = w\<lparr>cloudfront := cloudfront w @ [CallListDistributions]\<rparr> in
         case ListDistributions ext of
           None \<Rightarrow> panic w1
         | Some items \<Rightarrow>
             (let distributionId = findDistribution domain items [];
                  callerReference = GetCallerReference ext;
                  w2 = println (SendInvalidate distributionId) w1;
                  w3 = fold (\<lambda>k. println (PrintKey k)) paths w2;
                  w4 = w3\<lparr>cloudfront := cloudfront w3 @
                         [CallCreateInvalidation distributionId callerReference
                            (int (length paths)) paths]\<rparr>
              in if createInvalidationFails ext \<and> DisplayAwsErr ext ErrAws
                 then exit_process w4 else w4)))"

section \<open>The part of path/filepath the enumerator uses\<close>

text \<open>\<^verbatim>\<open>strings.TrimPrefix\<close>.\<close>

definition TrimPrefix :: "string \<Rightarrow> string \<Rightarrow> string" where
  "TrimPrefix s pre = (if take (length pre) s = pre then drop (length pre) s else s)"

text \<open>
  \<^verbatim>\<open>filepath.Base\<close>: the last element of the path, after trailing slashes are removed;
  a dot for the empty path and a slash for a path of slashes only. It never returns the
  empty string.
\<close>

definition Base :: "path \<Rightarrow> string" where
  "Base p =
     (if p = [] then ''.''
      else
        (let stripped = rev (dropWhile (\<lambda>c. c = CHR ''/'') (rev p));
             element = rev (takeWhile (\<lambda>c. c \<noteq> CHR ''/'') (rev stripped))
         in if element = [] then ''/'' else element))"

text \<open>
  \<^verbatim>\<open>filepath.Clean\<close>, by its documented rules: runs of slashes count as one, every dot
  element goes, every inner dot-dot goes with the element before it, a dot-dot that
  begins a rooted path goes, and the empty result is a dot. The elements are kept on a
  stack, oldest first.
\<close>

definition splitSlash :: "string \<Rightarrow> string list" where
  "splitSlash s =
     foldr (\<lambda>c acc. if c = CHR ''/'' then [] # acc else (c # hd acc) # tl acc) s [[]]"

fun joinSlash :: "string list \<Rightarrow> string" where
  "joinSlash [] = []"
| "joinSlash [x] = x"
| "joinSlash (x # y # ys) = x @ CHR ''/'' # joinSlash (y # ys)"

definition cleanStep :: "bool \<Rightarrow> string list \<Rightarrow> string \<Rightarrow> string list" where
  "cleanStep rooted stack element =
     (if element = [] \<or> element = ''.'' then stack
      else if element = ''..'' then
        (if stack \<noteq> [] \<and> last stack \<noteq> ''..'' then butlast stack
         else if rooted then stack
         else stack @ [''..''])
      else stack @ [element])"

definition Clean :: "path \<Rightarrow> path" where
  "Clean p =
     (let rooted = (p \<noteq> [] \<and> hd p = CHR ''/'');
          stack = foldl (cleanStep rooted) [] (splitSlash p)
      in if rooted then CHR ''/'' # joinSlash stack
         else if stack = [] then ''.''
         else joinSlash stack)"

text \<open>\<^verbatim>\<open>filepath.Join\<close> of two elements: empty elements are ignored, the result is cleaned.\<close>

definition Join :: "path \<Rightarrow> string \<Rightarrow> path" where
  "Join a b =
     (if a = [] \<and> b = [] then []
      else if a = [] then Clean b
      else Clean (a @ CHR ''/'' # b))"

section \<open>GetAllFiles\<close>

text \<open>
  The directory tree as \<^verbatim>\<open>filepath.Walk\<close> sees it through \<^verbatim>\<open>lstat\<close> and
  \<^verbatim>\<open>readDirNames\<close>: an entry that is not a directory, with its name and size, or a
  directory with its name, its size and its entries in the order read (sorted by name).
  Errors of \<^verbatim>\<open>lstat\<close> and of reading a directory are outside this model.
\<close>

datatype node = File string int | Dir string int "node list"

fun name :: "node \<Rightarrow> string" where
  "name (File n sz) = n"
| "name (Dir n sz cs) = n"

fun lstat :: "node \<Rightarrow> os_FileInfo" where
  "lstat (File n sz) = \<lparr>IsDir = False, Size = sz\<rparr>"
| "lstat (Dir n sz cs) = \<lparr>IsDir = True, Size = sz\<rparr>"

text \<open>
  The closure \<^verbatim>\<open>scan\<close> of lines 231 to 244: the descriptors it sends on the channel, and
  whether it returns \<^verbatim>\<open>filepath.SkipDir\<close> (\<open>True\<close>) or nil. \<^verbatim>\<open>filepath.Base(path)[0]\<close> is
  the head of a string that is never empty.
\<close>

definition scan :: "string \<Rightarrow> path \<Rightarrow> os_FileInfo \<Rightarrow> FileInfo list \<times> bool" where
  "scan dirname p fi =
     (if p = ''.'' then ([], False)
      else
        ((if \<not> IsDir fi \<and> hd (Base p) \<noteq> CHR ''.''
          then [\<lparr>path = p, key = TrimPrefix (TrimPrefix p dirname) ''/'', fileInfo = fi\<rparr>]
          else []),
         IsDir fi \<and> hd (Base p) = CHR ''.''))"

text \<open>
  \<^verbatim>\<open>filepath.walk\<close> and its loop over the names of a directory. An entry that is not a
  directory goes to the function; a directory goes to the function first and is
  descended into when the function returned nil. In the loop, \<^verbatim>\<open>SkipDir\<close> from a
  directory is swallowed and \<^verbatim>\<open>SkipDir\<close> from anything else ends the loop.
\<close>

fun walk :: "string \<Rightarrow> path \<Rightarrow> node \<Rightarrow> FileInfo list \<times> bool"
  and walkNames :: "string \<Rightarrow> path \<Rightarrow> node list \<Rightarrow> FileInfo list \<times> bool" where
  "walk dirname p (File n sz) = scan dirname p (lstat (File n sz))"
| "walk dirname p (Dir n sz cs) =
     (case scan dirname p (lstat (Dir n sz cs)) of
        (sent, True) \<Rightarrow> (sent, True)
      | (sent, False) \<Rightarrow>
          (case walkNames dirname p cs of (sent', err) \<Rightarrow> (sent @ sent', err)))"
| "walkNames dirname p [] = ([], False)"
| "walkNames dirname p (c # cs) =
     (case walk dirname (Join p (name c)) c of
        (sent, err) \<Rightarrow>
          if err \<and> \<not> IsDir (lstat c) then (sent, True)
          else (case walkNames dirname p cs of (sent', err') \<Rightarrow> (sent @ sent', err')))"

text \<open>
  \<^verbatim>\<open>filepath.Walk\<close> starts at the root with the path it was given, uncleaned, and its
  result is dropped; the channel receives what the closure sent.
\<close>

definition GetAllFiles :: "string \<Rightarrow> node \<Rightarrow> FileInfo list" where
  "GetAllFiles dirname root = fst (walk dirname dirname root)"

section \<open>The enumeration as the specification words it\<close>

text \<open>
  An entry is hidden when its base name starts with a dot. Under a directory with path
  \<open>p\<close>, the listing takes the entries in order: a hidden entry contributes nothing
  (with its whole subtree, when it is a directory), any other entry that is not a
  directory contributes itself, and any other directory contributes the listing of its
  entries. The root is not an entry of the listing.
\<close>

definition hidden :: "string \<Rightarrow> bool" where
  "hidden n = (case n of [] \<Rightarrow> False | c # _ \<Rightarrow> c = CHR ''.'')"

fun visible_entry :: "path \<Rightarrow> node \<Rightarrow> (path \<times> os_FileInfo) list"
  and visible_under :: "path \<Rightarrow> node list \<Rightarrow> (path \<times> os_FileInfo) list" where
  "visible_entry p (File n sz) =
     (if hidden n then [] else [(Join p n, \<lparr>IsDir = False, Size = sz\<rparr>)])"
| "visible_entry p (Dir n sz cs) =
     (if hidden n then [] else visible_under (Join p n) cs)"
| "visible_under p [] = []"
| "visible_under p (c # cs) = visible_entry p c @ visible_under p cs"

text \<open>
  The names a directory can hold: not empty, without a slash, and neither dot nor
  dot-dot.
\<close>

definition valid_name :: "string \<Rightarrow> bool" where
  "valid_name n = (n \<noteq> [] \<and> CHR ''/'' \<notin> set n \<and> n \<noteq> ''.'' \<and> n \<noteq> ''..'')"

fun valid_node :: "node \<Rightarrow> bool"
  and valid_nodes :: "node list \<Rightarrow> bool" where
  "valid_node (File n sz) = valid_name n"
| "valid_node (Dir n sz cs) = (valid_name n \<and> valid_nodes cs)"
| "valid_nodes [] = True"
| "valid_nodes (c # cs) = (valid_node c \<and> valid_nodes cs)"

text \<open>
  The descriptor the closure builds at lines 236 to 238 for an entry with the given path
  and \<^verbatim>\<open>os.FileInfo\<close>: the key is the path with the root prefix and then one leading
  slash removed.
\<close>

definition mkFileInfo :: "string \<Rightarrow> path \<times> os_FileInfo \<Rightarrow> FileInfo" where
  "mkFileInfo dirname e =
     \<lparr>path = fst e, key = TrimPrefix (TrimPrefix (fst e) dirname) ''/'', fileInfo = snd e\<rparr>"

section \<open>Sync\<close>

text \<open>
  The object store lists every object with its key and its entity tag. The entity tag of
  an object is taken to be the hexadecimal MD5 digest of the stored bytes between two
  double quotes, which is what the store answers for an object put in one part.
\<close>

definition ETag :: "externals \<Rightarrow> bytes \<Rightarrow> string" where
  "ETag ext b = CHR 0x22 # md5hex ext b @ [CHR 0x22]"

definition ListObjectsV2 :: "externals \<Rightarrow> (string \<times> bytes) list \<Rightarrow> (string \<times> string) list" where
  "ListObjectsV2 ext objects = map (\<lambda>kb. (fst kb, ETag ext (snd kb))) objects"

text \<open>
  The loop of lines 61 to 65 over the listed objects. The slice expression
  \<^verbatim>\<open>etag[1 : len(etag)-1]\<close> panics on a tag shorter than two bytes (\<open>None\<close>).
\<close>

fun recordKeys :: "(string \<times> string) list \<Rightarrow> (string \<rightharpoonup> string) \<Rightarrow> (string \<rightharpoonup> string) option" where
  "recordKeys [] s3Keys = Some s3Keys"
| "recordKeys ((k, etag) # rest) s3Keys =
     (if length etag < 2 then None
      else recordKeys rest (s3Keys(k \<mapsto> take (length etag - 2) (drop 1 etag))))"

text \<open>
  The whole run, with the workers' iterations one after another in the order of the
  enumeration and the aggregator having received every key before the invalidation
  starts. (With several workers the iterations interleave; each reads only the frozen
  inventory and the files.) A failed listing calls the callback for no page. A negative
  worker count makes \<^verbatim>\<open>wg.Add\<close> panic; with a count of zero no file is handled.
\<close>

definition Sync ::
  "externals \<Rightarrow> string \<Rightarrow> string \<Rightarrow> bool \<Rightarrow> int \<Rightarrow> node \<Rightarrow> world \<Rightarrow> world" where
  "Sync ext bucket dirname reUpload concurrentNum root w =
     (case recordKeys (if listObjectsFails ext then [] else ListObjectsV2 ext (remote w))
             Map.empty of
        None \<Rightarrow> panic w
      | Some s3Keys \<Rightarrow>
          if listObjectsFails ext \<and> DisplayAwsErr ext ErrAws then exit_process w
          else if concurrentNum < 0 then panic w
          else
            (let localFiles = GetAllFiles dirname root;
                 w1 = (if concurrentNum = 0 then w
                       else UploadFileHandler ext bucket s3Keys reUpload localFiles w)
             in if status w1 \<noteq> Running then w1
                else InvalidCloudFront ext bucket (doneChan w1) w1))"

text \<open>
  A later run is a new process on what the earlier one left: the local files and the
  bucket stay, the outputs start empty.
\<close>

definition next_run :: "world \<Rightarrow> world" where
  "next_run w = w\<lparr>stdout := [], uploads := [], doneChan := [], cloudfront := [], status := Running\<rparr>"

text \<open>
  The inventory that the listing of a bucket leaves in \<^verbatim>\<open>s3Keys\<close>, and the digest the
  worker computes for a file when the local files are \<open>fs\<close>: over the gzip stream when
  line 161 compresses, over the file's bytes otherwise (no bytes when it cannot be
  opened).
\<close>

definition remember :: "externals \<Rightarrow> (string \<rightharpoonup> string) \<Rightarrow> string \<times> bytes \<Rightarrow> (string \<rightharpoonup> string)" where
  "remember ext m kb = m(fst kb \<mapsto> md5hex ext (snd kb))"

definition inventory :: "externals \<Rightarrow> (string \<times> bytes) list \<Rightarrow> (string \<rightharpoonup> string)" where
  "inventory ext objects = foldl (remember ext) Map.empty objects"

definition content :: "(path \<rightharpoonup> bytes) \<Rightarrow> path \<Rightarrow> bytes" where
  "content fs p = (case fs p of None \<Rightarrow> [] | Some b \<Rightarrow> b)"

definition upload_digest :: "externals \<Rightarrow> (path \<rightharpoonup> bytes) \<Rightarrow> FileInfo \<Rightarrow> string" where
  "upload_digest ext fs file =
     md5hex ext (if shouldCompress file then gzipBest ext (content fs (path file))
                 else content fs (path file))"

text \<open>Recognises the line printed at line 199.\<close>

definition is_HashError :: "line \<Rightarrow> bool" where
  "is_HashError l = (case l of HashError _ \<Rightarrow> True | _ \<Rightarrow> False)"

text \<open>A string that begins with the separator.\<close>

definition leading_slash :: "string \<Rightarrow> bool" where
  "leading_slash s = (case s of [] \<Rightarrow> False | c # _ \<Rightarrow> c = CHR ''/'')"

section \<open>Sample inputs\<close>

text \<open>
  Concrete collaborators and worlds on which the theorems below are exercised. The stand-in
  digest and the stand-in compressor only prefix their input, so both are injective.
\<close>

definition example_ext :: externals where
  "example_ext =
     \<lparr>md5hex = (\<lambda>b. ''md5:'' @ b),
      gzipBest = (\<lambda>b. ''gz:'' @ b),
      DetectContentType = (\<lambda>b. ''application/octet-stream''),
      TempFile = (\<lambda>fs. Some ''/tmp/oursky1''),
      CheckErr = (\<lambda>e. True),
      DisplayAwsErr = (\<lambda>e. False),
      GetCallerReference = ''ref'',
      uploadFails = (\<lambda>i. False),
      listObjectsFails = False,
      ListDistributions = Some [\<lparr>Id = ''E1'', Aliases = [''example.com'']\<rparr>],
      createInvalidationFails = False\<rparr>"

definition example_world :: world where
  "example_world =
     \<lparr>files = [''site/a.txt'' \<mapsto> ''hello''],
      remote = [], stdout = [], uploads = [], doneChan = [], cloudfront = [],
      status = Running\<rparr>"

definition example_file :: FileInfo where
  "example_file = \<lparr>path = ''site/a.txt'', key = ''a.txt'', fileInfo = \<lparr>IsDir = False, Size = 5\<rparr>\<rparr>"

text \<open>A readable file of 501 bytes, which line 161 sends to the compressor.\<close>

definition big_file :: FileInfo where
  "big_file = \<lparr>path = ''site/big.txt'', key = ''big.txt'', fileInfo = \<lparr>IsDir = False, Size = 501\<rparr>\<rparr>"

definition big_world :: world where
  "big_world =
     \<lparr>files = [''site/big.txt'' \<mapsto> replicate 501 CHR ''a''],
      remote = [], stdout = [], uploads = [], doneChan = [], cloudfront = [],
      status = Running\<rparr>"

text \<open>An image of 501 bytes and a small style sheet.\<close>

definition jpg_file :: FileInfo where
  "jpg_file = \<lparr>path = ''site/photo.jpg'', key = ''photo.jpg'', fileInfo = \<lparr>IsDir = False, Size = 501\<rparr>\<rparr>"

definition css_file :: FileInfo where
  "css_file = \<lparr>path = ''site/style.css'', key = ''style.css'', fileInfo = \<lparr>IsDir = False, Size = 20\<rparr>\<rparr>"

text \<open>A file the walk lists and \<^verbatim>\<open>os.Open\<close> refuses (no read permission).\<close>

definition unreadable_file :: FileInfo where
  "unreadable_file = \<lparr>path = ''site/secret.txt'', key = ''secret.txt'', fileInfo = \<lparr>IsDir = False, Size = 5\<rparr>\<rparr>"

definition unreadable_world :: world where
  "unreadable_world =
     \<lparr>files = Map.empty,
      remote = [], stdout = [], uploads = [], doneChan = [], cloudfront = [],
      status = Running\<rparr>"

text \<open>A file whose name has a percent sign that starts no escape sequence.\<close>

definition percent_file :: FileInfo where
  "percent_file = \<lparr>path = ''site/100%.txt'', key = ''100%.txt'', fileInfo = \<lparr>IsDir = False, Size = 5\<rparr>\<rparr>"

definition percent_world :: world where
  "percent_world =
     \<lparr>files = [''site/100%.txt'' \<mapsto> ''hello''],
      remote = [], stdout = [], uploads = [], doneChan = [], cloudfront = [],
      status = Running\<rparr>"

text \<open>The entries of the root of the specification's example of hidden files.\<close>

definition r_entries :: "node list" where
  "r_entries =
     [Dir ''.git'' 4096 [File ''config'' 92],
      File ''.hidden'' 3,
      File ''visible.txt'' 12]"

text \<open>The directory whose one entry is the sample file.\<close>

definition site_tree :: node where
  "site_tree = Dir ''site'' 4096 [File ''a.txt'' 5]"

text \<open>The sample collaborators with an object store that rejects every put.\<close>

definition rejecting_ext :: externals where
  "rejecting_ext = example_ext\<lparr>uploadFails := (\<lambda>i. True)\<rparr>"

section \<open>The suffix never hits a table\<close>

text \<open>
  \<^verbatim>\<open>filepath.Ext\<close> returns the extension with its dot, or the empty string; lowering
  keeps the dot. The keys of both tables have no dot.
\<close>

lemma Ext_loop_dot: "Ext_loop r s = [] \<or> hd (Ext_loop r s) = CHR ''.''"
  by (induction r s rule: Ext_loop.induct) auto

lemma lower_byte_dot: "lower_byte CHR ''.'' = CHR ''.''"
  by (simp add: lower_byte_def)

lemma suffix_shape: "ToLower (Ext p) = [] \<or> hd (ToLower (Ext p)) = CHR ''.''"
  using Ext_loop_dot[of "rev p" "[]"]
  by (cases "Ext_loop (rev p) []") (auto simp: Ext_def ToLower_def lower_byte_dot)

lemma compressBlacklist_miss: "index_bool compressBlacklist (ToLower (Ext p)) = False"
  using suffix_shape[of p]
  by (cases "ToLower (Ext p)") (auto simp: index_bool_def compressBlacklist_def)

lemma contentTypeMap_miss: "contentTypeMap (ToLower (Ext p)) = None"
  using suffix_shape[of p]
  by (cases "ToLower (Ext p)") (auto simp: contentTypeMap_def)

lemma shouldCompress_size: "shouldCompress file \<longleftrightarrow> 500 < Size (fileInfo file)"
  by (simp add: shouldCompress_def compressBlacklist_miss)

section \<open>What one iteration leaves unchanged\<close>

lemma Hashfile_cases:
  "Hashfile ext fs f = Some (h, e) \<Longrightarrow>
     e = None \<and> h = md5hex ext (case fs f of None \<Rightarrow> [] | Some b \<Rightarrow> b)"
  by (auto simp: Hashfile_def split: option.splits if_splits)

lemma compress_uploads: "compress ext file w = (w1, up, ce) \<Longrightarrow> uploads w1 = uploads w"
  by (auto simp: compress_def Let_def println_def exit_process_def panic_def split: option.splits if_splits)

lemma transform_uploads: "transform ext file w = (w1, up, ce) \<Longrightarrow> uploads w1 = uploads w"
  by (auto simp: transform_def compress_uploads split: if_splits)

lemma sniff_uploads: "sniff ext file w = (w1, ct) \<Longrightarrow> uploads w1 = uploads w"
  by (auto simp: sniff_def Let_def println_def exit_process_def split: option.splits if_splits)

lemma contentTypeOf_uploads: "contentTypeOf ext file w = (w1, ct) \<Longrightarrow> uploads w1 = uploads w"
  by (auto simp: contentTypeOf_def sniff_uploads split: option.splits)

lemma prepare_uploads: "prepare ext file w = (w2, r) \<Longrightarrow> uploads w2 = uploads w"
  by (auto simp: prepare_def exit_process_def split: prod.splits if_splits option.splits
      dest!: transform_uploads contentTypeOf_uploads)

lemma prepare_hash:
  "prepare ext file w = (w2, Some p) \<Longrightarrow>
     hashErr p = None \<and> hash p = md5hex ext (case files w2 (uploadPath p) of None \<Rightarrow> [] | Some b \<Rightarrow> b)"
  by (auto simp: prepare_def split: prod.splits if_splits option.splits dest!: Hashfile_cases)

lemma Upload_uploads:
  "Upload ext inp w = (w', e) \<Longrightarrow> \<exists>ok. uploads w' = uploads w @ [(inp, ok)]"
  by (auto simp: Upload_def split: option.splits if_splits)

lemma compare_and_upload_skip:
  "s3Keys (key file) = Some (hash p) \<Longrightarrow> \<not> reUpload \<Longrightarrow>
   uploads (compare_and_upload ext bucket s3Keys reUpload file p w) = uploads w"
  by (simp add: compare_and_upload_def index_ok_def println_def)

lemma compare_and_upload_upload:
  "s3Keys (key file) \<noteq> Some (hash p) \<or> reUpload \<Longrightarrow>
   \<exists>ok. uploads (compare_and_upload ext bucket s3Keys reUpload file p w)
       = uploads w @ [(upParams bucket file p (files w (uploadPath p)), ok)]"
  by (auto simp: compare_and_upload_def index_ok_def println_def Let_def exit_process_def panic_def
      split: option.splits prod.splits dest!: Upload_uploads)

lemma compress_Running:
  assumes "compress ext file w = (w1, up, ce)" "status w1 = Running"
  shows "ce = ''gzip'' \<and> TempFile ext (files w) = Some up
         \<and> (\<exists>c. files w1 = (files w)(up \<mapsto> gzipBest ext c)
                \<and> c = (case ((files w)(up \<mapsto> [])) (path file) of None \<Rightarrow> [] | Some b \<Rightarrow> b))"
  using assms
  by (auto simp: compress_def Let_def println_def exit_process_def panic_def
      split: option.splits if_splits)

lemma sniff_files: "sniff ext file w = (w1, ct) \<Longrightarrow> files w1 = files w"
  by (auto simp: sniff_def Let_def println_def exit_process_def split: option.splits if_splits)

lemma contentTypeOf_files: "contentTypeOf ext file w = (w1, ct) \<Longrightarrow> files w1 = files w"
  by (auto simp: contentTypeOf_def sniff_files split: option.splits)

lemma prepare_compressed:
  assumes "prepare ext file w = (w2, Some p)" "shouldCompress file"
  shows "contentEncoding p = ''gzip'' \<and> TempFile ext (files w) = Some (uploadPath p)
         \<and> files w2 = (files w)(uploadPath p \<mapsto> gzipBest ext
              (case ((files w)(uploadPath p \<mapsto> [])) (path file) of None \<Rightarrow> [] | Some b \<Rightarrow> b))"
  using assms
  by (auto simp: prepare_def transform_def split: prod.splits if_splits option.splits
      dest!: compress_Running contentTypeOf_files)

lemma prepare_uncompressed:
  assumes "prepare ext file w = (w2, Some p)" "\<not> shouldCompress file"
  shows "contentEncoding p = [] \<and> uploadPath p = path file \<and> files w2 = files w"
  using assms
  by (auto simp: prepare_def transform_def split: prod.splits if_splits option.splits
      dest!: contentTypeOf_files)

lemma example_prepare:
  "prepare example_ext example_file example_world =
     (example_world\<lparr>stdout := [DetectedMIME ''application/octet-stream'']\<rparr>,
      Some \<lparr>uploadPath = ''site/a.txt'', contentEncoding = [],
            contentType = ''application/octet-stream'', hash = ''md5:hello'', hashErr = None\<rparr>)"
  by (simp add: prepare_def transform_def shouldCompress_size example_file_def example_world_def
      contentTypeOf_def contentTypeMap_miss sniff_def example_ext_def println_def Hashfile_def Let_def)

lemma big_prepare:
  "prepare example_ext big_file big_world =
     (big_world\<lparr>files := [''site/big.txt'' \<mapsto> replicate 501 CHR ''a'',
                           ''/tmp/oursky1'' \<mapsto> ''gz:'' @ replicate 501 CHR ''a''],
                stdout := [Compressing ''site/big.txt'', DetectedMIME ''application/octet-stream'']\<rparr>,
      Some \<lparr>uploadPath = ''/tmp/oursky1'', contentEncoding = ''gzip'',
            contentType = ''application/octet-stream'',
            hash = ''md5:gz:'' @ replicate 501 CHR ''a'', hashErr = None\<rparr>)"
  by (simp add: prepare_def transform_def shouldCompress_size big_file_def big_world_def
      compress_def contentTypeOf_def contentTypeMap_miss sniff_def example_ext_def println_def
      Hashfile_def Let_def)

lemma println_HashError:
  "\<not> is_HashError l \<Longrightarrow> filter is_HashError (stdout (println l w)) = filter is_HashError (stdout w)"
  by (simp add: println_def)

lemma compress_stdout:
  "compress ext file w = (w1, up, ce) \<Longrightarrow>
     filter is_HashError (stdout w1) = filter is_HashError (stdout w)"
  by (auto simp: compress_def Let_def println_def exit_process_def panic_def is_HashError_def
      split: option.splits if_splits)

lemma transform_stdout:
  "transform ext file w = (w1, up, ce) \<Longrightarrow>
     filter is_HashError (stdout w1) = filter is_HashError (stdout w)"
  by (auto simp: transform_def compress_stdout split: if_splits)

lemma contentTypeOf_stdout:
  "contentTypeOf ext file w = (w1, ct) \<Longrightarrow>
     filter is_HashError (stdout w1) = filter is_HashError (stdout w)"
  by (auto simp: contentTypeOf_def sniff_def Let_def println_def exit_process_def is_HashError_def
      split: option.splits if_splits)

lemma prepare_stdout:
  "prepare ext file w = (w2, r) \<Longrightarrow>
     filter is_HashError (stdout w2) = filter is_HashError (stdout w)"
  by (auto simp: prepare_def exit_process_def split: prod.splits if_splits option.splits
      dest!: transform_stdout contentTypeOf_stdout)

lemma Upload_stdout: "Upload ext inp w = (w', e) \<Longrightarrow> stdout w' = stdout w"
  by (auto simp: Upload_def split: option.splits if_splits)

lemma compare_and_upload_stdout:
  "hashErr p = None \<Longrightarrow>
     filter is_HashError (stdout (compare_and_upload ext bucket s3Keys reUpload file p w))
       = filter is_HashError (stdout w)"
  by (auto simp: compare_and_upload_def index_ok_def println_def Let_def exit_process_def panic_def
      is_HashError_def split: option.splits prod.splits dest!: Upload_stdout)

lemma handle_file_stdout:
  "filter is_HashError (stdout (handle_file ext bucket s3Keys reUpload file w))
     = filter is_HashError (stdout w)"
proof (cases "prepare ext file w")
  case (Pair w2 r)
  show ?thesis
  proof (cases r)
    case None
    with Pair show ?thesis by (simp add: handle_file_def prepare_stdout)
  next
    case (Some p)
    with Pair have "hashErr p = None" using prepare_hash by blast
    with Pair Some show ?thesis
      by (simp add: handle_file_def compare_and_upload_stdout prepare_stdout)
  qed
qed

lemma UploadFileHandler_stdout:
  "filter is_HashError (stdout (UploadFileHandler ext bucket s3Keys reUpload fs w))
     = filter is_HashError (stdout w)"
  by (induction fs arbitrary: w) (simp_all add: Let_def handle_file_stdout)

section \<open>The upload decision\<close>

text \<open>
  Claim C1, amended. Take an iteration that reaches the comparison of line 203 with the
  digest \<open>hash p\<close> in hand. It calls \<^verbatim>\<open>uploader.Upload\<close> for the file (once, with the file's key
  and the bytes found at \<^verbatim>\<open>uploadPath\<close>) if and only if the key is absent from the
  inventory, or the stored digest differs from the computed one, or the force flag is
  set. Equivalently, it makes no upload call exactly when the inventory has the key, the
  flag is false and the stored digest equals the computed one.
\<close>

theorem upload_iff_absent_changed_or_forced:
  assumes "prepare ext file w = (w2, Some p)"
  shows "((\<exists>ok. uploads (handle_file ext bucket s3Keys reUpload file w)
              = uploads w @ [(upParams bucket file p (files w2 (uploadPath p)), ok)])
          \<longleftrightarrow> (s3Keys (key file) = None \<or> s3Keys (key file) \<noteq> Some (hash p) \<or> reUpload))
       \<and> (uploads (handle_file ext bucket s3Keys reUpload file w) = uploads w
          \<longleftrightarrow> (\<exists>etag. s3Keys (key file) = Some etag \<and> \<not> reUpload \<and> etag = hash p))"
proof (cases "s3Keys (key file) = Some (hash p) \<and> \<not> reUpload")
  case True
  then have "uploads (handle_file ext bucket s3Keys reUpload file w) = uploads w"
    using assms prepare_uploads[OF assms]
    by (simp add: handle_file_def compare_and_upload_skip)
  with True show ?thesis by auto
next
  case False
  then have "s3Keys (key file) \<noteq> Some (hash p) \<or> reUpload" by blast
  then have "\<exists>ok. uploads (compare_and_upload ext bucket s3Keys reUpload file p w2)
       = uploads w2 @ [(upParams bucket file p (files w2 (uploadPath p)), ok)]"
    by (rule compare_and_upload_upload)
  then obtain ok where "uploads (handle_file ext bucket s3Keys reUpload file w)
       = uploads w @ [(upParams bucket file p (files w2 (uploadPath p)), ok)]"
    using assms prepare_uploads[OF assms] by (auto simp: handle_file_def)
  with False show ?thesis by auto
qed

text \<open>
  The sample file at four inventories and flags: stored digest equal (skipped), stored
  digest different, key absent, and flag set (uploaded each time).
\<close>

theorem upload_iff_absent_changed_or_forced_witness:
  "uploads (handle_file example_ext ''bucket'' [''a.txt'' \<mapsto> ''md5:hello''] False example_file example_world) = []
   \<and> uploads (handle_file example_ext ''bucket'' [''a.txt'' \<mapsto> ''md5:other''] False example_file example_world) \<noteq> []
   \<and> uploads (handle_file example_ext ''bucket'' Map.empty False example_file example_world) \<noteq> []
   \<and> uploads (handle_file example_ext ''bucket'' [''a.txt'' \<mapsto> ''md5:hello''] True example_file example_world) \<noteq> []"
  using upload_iff_absent_changed_or_forced[OF example_prepare, of "''bucket''" "[''a.txt'' \<mapsto> ''md5:hello'']" False]
    upload_iff_absent_changed_or_forced[OF example_prepare, of "''bucket''" "[''a.txt'' \<mapsto> ''md5:other'']" False]
    upload_iff_absent_changed_or_forced[OF example_prepare, of "''bucket''" "Map.empty" False]
    upload_iff_absent_changed_or_forced[OF example_prepare, of "''bucket''" "[''a.txt'' \<mapsto> ''md5:hello'']" True]
  by (simp add: example_file_def example_world_def)

text \<open>
  Claim C1 as stated, for every enumerated file, fails for a file whose iteration stops
  before the comparison. A file that cannot be opened, with a \<open>CheckErr\<close> that terminates
  the process, ends the run at line 185; a file above 500 bytes for which no temporary
  file can be made ends it at line 166. In both cases the key is absent from the
  inventory and the force flag is set, and no upload call is made.
\<close>

theorem stopped_before_comparison_counterexample:
  "(Map.empty :: string \<rightharpoonup> string) (key unreadable_file) = None
   \<and> uploads (handle_file example_ext ''bucket'' Map.empty True unreadable_file unreadable_world) = []
   \<and> status (handle_file example_ext ''bucket'' Map.empty True unreadable_file unreadable_world) = Exited
   \<and> (Map.empty :: string \<rightharpoonup> string) (key big_file) = None
   \<and> uploads (handle_file (example_ext\<lparr>TempFile := (\<lambda>fs. None)\<rparr>) ''bucket'' Map.empty True
        big_file big_world) = []
   \<and> status (handle_file (example_ext\<lparr>TempFile := (\<lambda>fs. None)\<rparr>) ''bucket'' Map.empty True
        big_file big_world) = Exited"
proof -
  have a: "prepare example_ext unreadable_file unreadable_world
      = (exit_process unreadable_world, None)"
    by (simp add: prepare_def transform_def shouldCompress_size unreadable_file_def
        unreadable_world_def contentTypeOf_def contentTypeMap_miss sniff_def example_ext_def
        exit_process_def)
  have b: "prepare (example_ext\<lparr>TempFile := (\<lambda>fs. None)\<rparr>) big_file big_world
      = (exit_process (println (Compressing ''site/big.txt'') big_world), None)"
    by (simp add: prepare_def transform_def shouldCompress_size big_file_def big_world_def
        compress_def example_ext_def exit_process_def println_def Let_def)
  show ?thesis
    unfolding handle_file_def a b
    by (simp add: exit_process_def println_def unreadable_world_def big_world_def)
qed

section \<open>Compression and classification\<close>

text \<open>
  Claim C2. The claim says a file whose extension is in the blacklist is never compressed.
  The suffix tested at line 161 is \<^verbatim>\<open>.jpg\<close>, with the dot, and the blacklist holds
  \<^verbatim>\<open>jpg\<close>: for an image of 501 bytes named photo.jpg the test of line 161 succeeds and the
  transform stage is the compression branch.
\<close>

theorem blacklisted_jpg_is_compressed:
  "ToLower (Ext (path jpg_file)) = ''.jpg''
   \<and> compressBlacklist ''jpg'' = Some True
   \<and> shouldCompress jpg_file
   \<and> transform ext jpg_file w = compress ext jpg_file w"
  by (simp add: jpg_file_def Ext_def ToLower_def lower_byte_def compressBlacklist_def
      shouldCompress_def index_bool_def transform_def)

text \<open>
  Claim C3. The claim says a file whose extension is in the table gets the table's value
  without sniffing. The suffix looked up at line 182 is \<^verbatim>\<open>.css\<close>, with the dot, and the
  table holds \<^verbatim>\<open>css\<close>: for style.css the classification is the sniffing branch, whatever
  the collaborators and the world.
\<close>

theorem css_file_is_sniffed:
  "ToLower (Ext (path css_file)) = ''.css''
   \<and> contentTypeMap ''css'' = Some ''text/css''
   \<and> contentTypeOf ext css_file w = sniff ext css_file w"
  by (simp add: css_file_def Ext_def ToLower_def lower_byte_def contentTypeMap_def contentTypeOf_def)

section \<open>The digest\<close>

text \<open>
  Claim C4. In an iteration that reaches the comparison, the digest compared with the
  stored one is the digest of the bytes found at \<^verbatim>\<open>uploadPath\<close>, and these bytes are the
  body of the upload the iteration makes, if it makes one. When line 161 chose to
  compress, \<^verbatim>\<open>uploadPath\<close> is the temporary file, it holds the gzip stream of the source
  bytes, and the digest is taken over that stream; otherwise \<^verbatim>\<open>uploadPath\<close> is the
  original path and the digest is taken over the original bytes.
\<close>

theorem digest_is_of_uploaded_bytes:
  assumes "prepare ext file w = (w2, Some p)"
  shows "hash p = md5hex ext (case files w2 (uploadPath p) of None \<Rightarrow> [] | Some b \<Rightarrow> b)
     \<and> (uploads (handle_file ext bucket s3Keys reUpload file w) = uploads w
        \<or> (\<exists>inp ok. uploads (handle_file ext bucket s3Keys reUpload file w) = uploads w @ [(inp, ok)]
              \<and> Key inp = key file \<and> Body inp = files w2 (uploadPath p)))
     \<and> (if shouldCompress file
        then contentEncoding p = ''gzip'' \<and> TempFile ext (files w) = Some (uploadPath p)
           \<and> files w2 (uploadPath p) = Some (gzipBest ext
                (case ((files w)(uploadPath p \<mapsto> [])) (path file) of None \<Rightarrow> [] | Some b \<Rightarrow> b))
           \<and> hash p = md5hex ext (gzipBest ext
                (case ((files w)(uploadPath p \<mapsto> [])) (path file) of None \<Rightarrow> [] | Some b \<Rightarrow> b))
        else contentEncoding p = [] \<and> uploadPath p = path file
           \<and> files w2 (uploadPath p) = files w (path file)
           \<and> hash p = md5hex ext (case files w (path file) of None \<Rightarrow> [] | Some b \<Rightarrow> b))"
proof -
  have h: "hash p = md5hex ext (case files w2 (uploadPath p) of None \<Rightarrow> [] | Some b \<Rightarrow> b)"
    using prepare_hash[OF assms] by simp
  have u: "uploads (handle_file ext bucket s3Keys reUpload file w) = uploads w
        \<or> (\<exists>inp ok. uploads (handle_file ext bucket s3Keys reUpload file w) = uploads w @ [(inp, ok)]
              \<and> Key inp = key file \<and> Body inp = files w2 (uploadPath p))"
  proof (cases "s3Keys (key file) = Some (hash p) \<and> \<not> reUpload")
    case True
    then show ?thesis
      using assms prepare_uploads[OF assms] by (simp add: handle_file_def compare_and_upload_skip)
  next
    case False
    then have "s3Keys (key file) \<noteq> Some (hash p) \<or> reUpload" by blast
    then have "\<exists>ok. uploads (compare_and_upload ext bucket s3Keys reUpload file p w2)
         = uploads w2 @ [(upParams bucket file p (files w2 (uploadPath p)), ok)]"
      by (rule compare_and_upload_upload)
    then obtain ok where "uploads (handle_file ext bucket s3Keys reUpload file w)
         = uploads w @ [(upParams bucket file p (files w2 (uploadPath p)), ok)]"
      using assms prepare_uploads[OF assms] by (auto simp: handle_file_def)
    moreover have "Key (upParams bucket file p (files w2 (uploadPath p))) = key file"
      and "Body (upParams bucket file p (files w2 (uploadPath p))) = files w2 (uploadPath p)"
      by (simp_all add: upParams_def)
    ultimately show ?thesis by blast
  qed
  show ?thesis
  proof (cases "shouldCompress file")
    case True
    from prepare_compressed[OF assms True] h u True show ?thesis by simp
  next
    case False
    from prepare_uncompressed[OF assms False] h u False show ?thesis by simp
  qed
qed

text \<open>A compressed file of 501 bytes, and the small sample file.\<close>

theorem digest_is_of_uploaded_bytes_witness:
  "uploads (handle_file example_ext ''bucket'' Map.empty False big_file big_world)
     = [(\<lparr>Bucket = ''bucket'', Key = ''big.txt'',
          Body = Some (gzipBest example_ext (replicate 501 CHR ''a'')),
          CacheControl = ''max-age=900'', ContentEncoding = ''gzip'',
          ContentType = ''application/octet-stream'', ACL = ''public-read''\<rparr>, True)]
   \<and> hash (the (snd (prepare example_ext big_file big_world)))
       = md5hex example_ext (gzipBest example_ext (replicate 501 CHR ''a''))
   \<and> hash (the (snd (prepare example_ext example_file example_world)))
       = md5hex example_ext ''hello''"
proof -
  have up: "uploads (handle_file example_ext ''bucket'' Map.empty False big_file big_world)
     = [(\<lparr>Bucket = ''bucket'', Key = ''big.txt'',
          Body = Some (gzipBest example_ext (replicate 501 CHR ''a'')),
          CacheControl = ''max-age=900'', ContentEncoding = ''gzip'',
          ContentType = ''application/octet-stream'', ACL = ''public-read''\<rparr>, True)]"
    using digest_is_of_uploaded_bytes[OF big_prepare, of "''bucket''" Map.empty False]
    unfolding handle_file_def big_prepare
    by (simp add: compare_and_upload_def index_ok_def println_def Upload_def upParams_def
        big_file_def big_world_def example_ext_def ParseRequestURI_def
        stringContainsCTLByte_def setPath_def Let_def)
  have h1: "hash (the (snd (prepare example_ext big_file big_world)))
       = md5hex example_ext (gzipBest example_ext (replicate 501 CHR ''a''))"
    unfolding big_prepare by (simp add: example_ext_def)
  have h2: "hash (the (snd (prepare example_ext example_file example_world)))
       = md5hex example_ext ''hello''"
    using digest_is_of_uploaded_bytes[OF example_prepare, of "''bucket''" Map.empty False]
    unfolding example_prepare by (simp add: example_ext_def)
  from up h1 h2 show ?thesis by blast
qed

text \<open>
  Claim C5. The claim says a file whose digest cannot be computed is reported and then
  uploaded, and the run goes on. Take a file that cannot be opened, whose key the
  inventory maps to the digest of no bytes, with the force flag off. Whatever the
  collaborators do, no upload call is made and no hash error is printed; the run goes on
  only if \<open>CheckErr\<close> returns, and then the file has been skipped.
\<close>

theorem unhashable_file_not_uploaded:
  "uploads (handle_file ext bucket [''secret.txt'' \<mapsto> md5hex ext []] False unreadable_file unreadable_world) = []
   \<and> filter is_HashError (stdout (handle_file ext bucket [''secret.txt'' \<mapsto> md5hex ext []] False unreadable_file unreadable_world)) = []
   \<and> status (handle_file ext bucket [''secret.txt'' \<mapsto> md5hex ext []] False unreadable_file unreadable_world)
       = (if CheckErr ext ErrOpen \<or> CheckErr ext ErrInvalid then Exited else Running)"
  by (simp add: handle_file_def prepare_def transform_def shouldCompress_size unreadable_file_def
      unreadable_world_def contentTypeOf_def contentTypeMap_miss sniff_def println_def
      exit_process_def Hashfile_def Let_def compare_and_upload_def index_ok_def is_HashError_def)

text \<open>
  Claim C10. Whenever \<open>Hashfile\<close> returns, the error it returns is nil; and the worker,
  over any sequence of files, prints no line of the hash-error branch of line 199.
\<close>

theorem Hashfile_never_returns_error:
  "(case Hashfile ext fs filename of None \<Rightarrow> True | Some (h, e) \<Rightarrow> e = None)
   \<and> filter is_HashError (stdout (UploadFileHandler ext bucket s3Keys reUpload fs' w))
       = filter is_HashError (stdout w)"
proof -
  have "case Hashfile ext fs filename of None \<Rightarrow> True | Some (h, e) \<Rightarrow> e = None"
    by (simp add: Hashfile_def split: option.splits)
  then show ?thesis by (simp add: UploadFileHandler_stdout)
qed

section \<open>The invalidation\<close>

lemma fold_println_cloudfront:
  "cloudfront (fold (\<lambda>k. println (PrintKey k)) ps w) = cloudfront w"
  by (induction ps arbitrary: w) (simp_all add: println_def)

text \<open>
  Claim C6, amended. With an empty list the function changes nothing: no call is made.
  With a non-empty list and a response that carries a distribution list, it makes one
  listing call and then exactly one invalidation call, whose items are every key of the
  list, in order, and whose quantity is their number.
\<close>

theorem invalidation_one_batch_when_listed:
  "(paths = [] \<longrightarrow> InvalidCloudFront ext domain paths w = w)
   \<and> (paths \<noteq> [] \<longrightarrow> ListDistributions ext = Some items \<longrightarrow>
        cloudfront (InvalidCloudFront ext domain paths w)
          = cloudfront w @
            [CallListDistributions,
             CallCreateInvalidation (findDistribution domain items []) (GetCallerReference ext)
               (int (length paths)) paths])"
  by (simp add: InvalidCloudFront_def Let_def fold_println_cloudfront println_def exit_process_def)

text \<open>The empty list, and a list of two keys.\<close>

theorem invalidation_one_batch_when_listed_witness:
  "InvalidCloudFront example_ext ''example.com'' [] example_world = example_world
   \<and> cloudfront (InvalidCloudFront example_ext ''example.com'' [''/a.txt'', ''/b.txt''] example_world)
       = [CallListDistributions, CallCreateInvalidation ''E1'' ''ref'' 2 [''/a.txt'', ''/b.txt'']]"
  using invalidation_one_batch_when_listed[of "[]" example_ext "''example.com''" example_world]
    invalidation_one_batch_when_listed[of "[''/a.txt'', ''/b.txt'']" example_ext "''example.com''"
      example_world "[\<lparr>Id = ''E1'', Aliases = [''example.com'']\<rparr>]"]
  by (simp add: example_ext_def example_world_def matchAliases_def)

text \<open>
  Claim C6 as stated fails when the listing call fails: the response carries no
  distribution list, line 109 panics, and no invalidation is created although the list
  of keys is not empty.
\<close>

theorem invalidation_listing_failed_counterexample:
  "cloudfront (InvalidCloudFront (example_ext\<lparr>ListDistributions := None\<rparr>) ''example.com''
      [''/a.txt''] example_world) = [CallListDistributions]
   \<and> status (InvalidCloudFront (example_ext\<lparr>ListDistributions := None\<rparr>) ''example.com''
      [''/a.txt''] example_world) = Panicked"
  by (simp add: InvalidCloudFront_def example_ext_def example_world_def panic_def)

section \<open>The path sent on the done channel\<close>

lemma percent_key_does_not_parse: "ParseRequestURI (CHR ''/'' # key percent_file) = None"
  by (simp add: percent_file_def ParseRequestURI_def stringContainsCTLByte_def setPath_def ishex_def)

lemma unescape_slash:
  "unescape (CHR ''/'' # s) = Some r \<Longrightarrow> \<exists>r'. r = CHR ''/'' # r'"
  by (auto)

lemma escape_slash: "escape (CHR ''/'' # s) = CHR ''/'' # escape s"
  by (simp add: escape_def shouldEscape_def)

lemma setPath_slash:
  assumes "setPath (CHR ''/'' # s) fq q = Some u"
  shows "\<exists>r. EscapedPath u = CHR ''/'' # r"
proof -
  from assms obtain r' where p: "Path u = CHR ''/'' # r'"
    and rp: "RawPath u = [] \<or> RawPath u = CHR ''/'' # s"
    by (auto simp: setPath_def split: option.splits if_splits)
  show ?thesis
    using p rp by (auto simp: EscapedPath_def escape_slash)
qed

lemma ParseRequestURI_slash:
  assumes "ParseRequestURI (CHR ''/'' # k) = Some u"
  shows "\<exists>r. URL_String u = CHR ''/'' # r"
proof -
  have "\<exists>s fq q. setPath (CHR ''/'' # s) fq q = Some u"
  proof (cases "last (CHR ''/'' # k) = CHR ''?'' \<and> count_list (CHR ''/'' # k) CHR ''?'' = 1")
    case True
    then have "k \<noteq> []" by auto
    then have "butlast (CHR ''/'' # k) = CHR ''/'' # butlast k" by simp
    with True assms show ?thesis
      by (auto simp: ParseRequestURI_def split: if_splits)
  next
    case False
    with assms have "setPath (CHR ''/'' # takeWhile (\<lambda>c. c \<noteq> CHR ''?'') k) False
             (drop 1 (dropWhile (\<lambda>c. c \<noteq> CHR ''?'') (CHR ''/'' # k))) = Some u"
      by (auto simp: ParseRequestURI_def split: if_splits)
    then show ?thesis by blast
  qed
  then obtain s fq q where "setPath (CHR ''/'' # s) fq q = Some u" by blast
  from setPath_slash[OF this] obtain r where "EscapedPath u = CHR ''/'' # r" by blast
  then show ?thesis by (simp add: URL_String_def)
qed

lemma prepare_doneChan: "prepare ext file w = (w2, r) \<Longrightarrow> doneChan w2 = doneChan w"
  by (auto simp: prepare_def transform_def compress_def contentTypeOf_def sniff_def Let_def
      println_def exit_process_def panic_def split: prod.splits if_splits option.splits)

lemma Upload_doneChan: "Upload ext inp w = (w', e) \<Longrightarrow> doneChan w' = doneChan w"
  by (auto simp: Upload_def split: option.splits if_splits)

lemma compare_and_upload_doneChan:
  "list_all leading_slash (doneChan w) \<Longrightarrow>
   list_all leading_slash (doneChan (compare_and_upload ext bucket s3Keys reUpload file p w))"
  by (auto simp: compare_and_upload_def index_ok_def println_def Let_def exit_process_def
      panic_def leading_slash_def
      split: option.splits prod.splits dest!: Upload_doneChan ParseRequestURI_slash)

lemma handle_file_doneChan:
  "list_all leading_slash (doneChan w) \<Longrightarrow>
   list_all leading_slash (doneChan (handle_file ext bucket s3Keys reUpload file w))"
  by (auto simp: handle_file_def compare_and_upload_doneChan split: prod.splits option.splits
      dest!: prepare_doneChan)

text \<open>
  Whatever the worker sends begins with the separator: the keys of the changed-key set
  all do. What fails is that something is sent for every successful upload.
\<close>

lemma UploadFileHandler_doneChan:
  "list_all leading_slash (doneChan w) \<Longrightarrow>
   list_all leading_slash (doneChan (UploadFileHandler ext bucket s3Keys reUpload fs w))"
  by (induction fs arbitrary: w) (simp_all add: Let_def handle_file_doneChan)

text \<open>
  Claim C8. The claim says the worker emits a path for every file whose upload succeeds.
  For the key \<^verbatim>\<open>100%.txt\<close> the put request succeeds, \<^verbatim>\<open>url.ParseRequestURI\<close> rejects
  \<^verbatim>\<open>/100%.txt\<close> (an invalid escape), its error is dropped at line 224, and
  \<^verbatim>\<open>key.String()\<close> is called on the nil pointer: nothing is sent and the process panics.
\<close>

theorem uploaded_percent_key_not_emitted:
  "uploads (handle_file example_ext ''bucket'' Map.empty False percent_file percent_world)
     = [(\<lparr>Bucket = ''bucket'', Key = ''100%.txt'', Body = Some ''hello'',
          CacheControl = ''max-age=900'', ContentEncoding = [],
          ContentType = ''application/octet-stream'', ACL = ''public-read''\<rparr>, True)]
   \<and> doneChan (handle_file example_ext ''bucket'' Map.empty False percent_file percent_world) = []
   \<and> status (handle_file example_ext ''bucket'' Map.empty False percent_file percent_world) = Panicked"
proof -
  have p: "prepare example_ext percent_file percent_world =
     (percent_world\<lparr>stdout := [DetectedMIME ''application/octet-stream'']\<rparr>,
      Some \<lparr>uploadPath = ''site/100%.txt'', contentEncoding = [],
            contentType = ''application/octet-stream'', hash = ''md5:hello'', hashErr = None\<rparr>)"
    by (simp add: prepare_def transform_def shouldCompress_size percent_file_def percent_world_def
        contentTypeOf_def contentTypeMap_miss sniff_def example_ext_def println_def Hashfile_def
        Let_def)
  show ?thesis
    unfolding handle_file_def p
    by (simp add: compare_and_upload_def index_ok_def println_def Upload_def upParams_def
        panic_def percent_key_does_not_parse Let_def)
      (simp add: percent_file_def percent_world_def example_ext_def)
qed

section \<open>The enumeration\<close>

text \<open>
  Joining a directory's path and the name of one of its entries gives a path whose base
  name is that name; in particular the path is not a single dot.
\<close>

lemma splitSlash_acc:
  "foldr (\<lambda>c acc. if c = CHR ''/'' then [] # acc else (c # hd acc) # tl acc) a (x # rest)
     = foldr (\<lambda>c acc. if c = CHR ''/'' then [] # acc else (c # hd acc) # tl acc) a [x] @ rest"
proof (induction a)
  case Nil
  show ?case by simp
next
  case (Cons c a)
  have ne: "foldr (\<lambda>c acc. if c = CHR ''/'' then [] # acc else (c # hd acc) # tl acc) a [x] \<noteq> []"
    by (induction a) auto
  show ?case using Cons ne by (auto simp: hd_append)
qed

lemma splitSlash_name: "CHR ''/'' \<notin> set n \<Longrightarrow> splitSlash n = [n]"
  by (induction n) (auto simp: splitSlash_def)

lemma splitSlash_append:
  assumes "CHR ''/'' \<notin> set n"
  shows "splitSlash (a @ CHR ''/'' # n) = splitSlash a @ [n]"
proof -
  have "splitSlash (a @ CHR ''/'' # n)
      = foldr (\<lambda>c acc. if c = CHR ''/'' then [] # acc else (c # hd acc) # tl acc) a ([] # splitSlash n)"
    by (simp add: splitSlash_def)
  also have "\<dots> = splitSlash a @ splitSlash n"
    using splitSlash_acc[of a "[]" "splitSlash n"] by (simp add: splitSlash_def)
  finally show ?thesis using assms by (simp add: splitSlash_name)
qed

lemma joinSlash_snoc:
  "joinSlash (st @ [n]) = (if st = [] then n else joinSlash st @ CHR ''/'' # n)"
  by (induction st rule: joinSlash.induct) auto

lemma Base_suffix:
  assumes "n \<noteq> []" "CHR ''/'' \<notin> set n" "pre = [] \<or> last pre = CHR ''/''"
  shows "Base (pre @ n) = n"
proof -
  from assms(1) obtain c r where r: "rev n = c # r" by (cases "rev n") auto
  with assms(2) have c: "c \<noteq> CHR ''/''" by (metis list.set_intros(1) set_rev)
  have d: "dropWhile (\<lambda>c. c = CHR ''/'') (rev (pre @ n)) = rev (pre @ n)"
    using r c by simp
  have t: "takeWhile (\<lambda>c. c \<noteq> CHR ''/'') (rev n @ rev pre) = rev n"
  proof (cases "pre = []")
    case True
    then show ?thesis using assms(2) by (auto simp: takeWhile_eq_all_conv)
  next
    case False
    with assms(3) have "last pre = CHR ''/''" by simp
    with False have "hd (rev pre) = CHR ''/''" "rev pre \<noteq> []" by (simp_all add: hd_rev)
    then obtain q where "rev pre = CHR ''/'' # q" by (cases "rev pre") auto
    then show ?thesis using assms(2) by (auto simp: takeWhile_tail takeWhile_eq_all_conv)
  qed
  show ?thesis using assms(1) d t by (simp add: Base_def Let_def)
qed

lemma Clean_name:
  assumes "valid_name n"
  shows "Clean n = n"
proof -
  from assms have "hd n \<noteq> CHR ''/''" "n \<noteq> []" by (cases n; auto simp: valid_name_def)+
  then show ?thesis using assms
    by (simp add: Clean_def splitSlash_name valid_name_def cleanStep_def)
qed

lemma foldl_cleanStep_name:
  assumes "valid_name n"
  shows "foldl (cleanStep r) [] (splitSlash (a @ CHR ''/'' # n))
           = foldl (cleanStep r) [] (splitSlash a) @ [n]"
proof -
  from assms have "CHR ''/'' \<notin> set n" "n \<noteq> []" "n \<noteq> ''.''" "n \<noteq> ''..''"
    by (simp_all add: valid_name_def)
  then show ?thesis
    by (simp add: splitSlash_append cleanStep_def)
qed

lemma Clean_slash_name:
  assumes "valid_name n"
  shows "\<exists>pre. Clean (a @ CHR ''/'' # n) = pre @ n \<and> (pre = [] \<or> last pre = CHR ''/'')"
proof -
  define r where "r = (hd (a @ CHR ''/'' # n) = CHR ''/'')"
  define st where "st = foldl (cleanStep r) [] (splitSlash a)"
  have s: "foldl (cleanStep r) [] (splitSlash (a @ CHR ''/'' # n)) = st @ [n]"
    unfolding st_def by (rule foldl_cleanStep_name[OF assms])
  have ne: "(a @ CHR ''/'' # n \<noteq> [] \<and> hd (a @ CHR ''/'' # n) = CHR ''/'') = r"
    unfolding r_def by simp
  have c: "Clean (a @ CHR ''/'' # n)
      = (if r then CHR ''/'' # joinSlash (st @ [n]) else joinSlash (st @ [n]))"
    unfolding Clean_def Let_def ne s by simp
  show ?thesis
  proof (cases r)
    case True
    show ?thesis
    proof (cases "st = []")
      case True
      with \<open>r\<close> c have "Clean (a @ CHR ''/'' # n) = ''/'' @ n" by simp
      moreover have "last ''/'' = CHR ''/''" by simp
      ultimately show ?thesis by blast
    next
      case False
      with \<open>r\<close> c have "Clean (a @ CHR ''/'' # n) = (CHR ''/'' # joinSlash st @ ''/'') @ n"
        by (simp add: joinSlash_snoc)
      moreover have "last (CHR ''/'' # joinSlash st @ ''/'') = CHR ''/''" by simp
      ultimately show ?thesis by blast
    qed
  next
    case nr: False
    show ?thesis
    proof (cases "st = []")
      case True
      with nr c have "Clean (a @ CHR ''/'' # n) = [] @ n" by simp
      then show ?thesis by blast
    next
      case False
      with nr c have "Clean (a @ CHR ''/'' # n) = (joinSlash st @ ''/'') @ n"
        by (simp add: joinSlash_snoc)
      moreover have "last (joinSlash st @ ''/'') = CHR ''/''" by simp
      ultimately show ?thesis by blast
    qed
  qed
qed

lemma Base_Join:
  assumes "valid_name n"
  shows "Base (Join p n) = n"
proof (cases "p = []")
  case True
  with assms have "Join p n = n" by (simp add: Join_def Clean_name valid_name_def)
  moreover have "Base ([] @ n) = n"
    using assms by (intro Base_suffix) (auto simp: valid_name_def)
  ultimately show ?thesis by simp
next
  case False
  then have j: "Join p n = Clean (p @ CHR ''/'' # n)" by (simp add: Join_def)
  from Clean_slash_name[OF assms, of p] obtain pre
    where "Clean (p @ CHR ''/'' # n) = pre @ n" "pre = [] \<or> last pre = CHR ''/''" by blast
  with j assms show ?thesis by (simp add: Base_suffix valid_name_def)
qed

lemma Base_dot: "Base ''.'' = ''.''"
  by (simp add: Base_def)

lemma Join_not_dot: "valid_name n \<Longrightarrow> Join p n \<noteq> ''.''"
  using Base_Join[of n p] Base_dot by (auto simp: valid_name_def)

lemma hd_hidden: "n \<noteq> [] \<Longrightarrow> (hd n = CHR ''.'') = hidden n"
  by (cases n) (auto simp: hidden_def)

lemma Base_not_empty: "Base p \<noteq> []"
  by (simp add: Base_def Let_def)

lemma scan_entry:
  assumes "valid_name n"
  shows "scan dirname (Join p n) fi =
     ((if \<not> IsDir fi \<and> \<not> hidden n then [mkFileInfo dirname (Join p n, fi)] else []),
      IsDir fi \<and> hidden n)"
  using assms Join_not_dot[OF assms, of p] Base_Join[OF assms, of p] hd_hidden[of n]
  by (simp add: scan_def mkFileInfo_def valid_name_def)

lemma scan_root:
  "dirname = ''.'' \<or> \<not> hidden (Base dirname) \<Longrightarrow>
     scan dirname dirname \<lparr>IsDir = True, Size = sz\<rparr> = ([], False)"
  using hd_hidden[OF Base_not_empty, of dirname] by (auto simp: scan_def)

text \<open>
  Below the root the walk sends exactly the listing of the specification, in order, and
  the loop over a directory's names never ends early.
\<close>

lemma walk_visible:
  "valid_node c \<Longrightarrow>
     walk dirname (Join p (name c)) c
       = (map (mkFileInfo dirname) (visible_entry p c), IsDir (lstat c) \<and> hidden (name c))"
  "valid_nodes cs \<Longrightarrow>
     walkNames dirname p cs = (map (mkFileInfo dirname) (visible_under p cs), False)"
proof (induction p c and p cs rule: visible_entry_visible_under.induct)
  case (1 p n sz)
  then show ?case by (simp add: scan_entry)
next
  case (2 p n sz cs)
  then show ?case by (simp add: scan_entry)
next
  case (3 p)
  show ?case by simp
next
  case (4 p c cs)
  then show ?case by simp
qed

text \<open>
  Claim C7, amended. For a root that is a directory, whose path is a single dot or has a
  base name that does not start with a dot, and whose tree holds names a directory can
  hold, the enumerator sends exactly the entries that are not directories, whose base
  name does not start with a dot, and that lie in no directory whose base name starts
  with a dot (whole subtrees of such directories are pruned); the root is not among
  them. Each descriptor carries the entry's path, its key and its \<^verbatim>\<open>os.FileInfo\<close>.
\<close>

theorem enumerates_visible_entries:
  assumes "valid_nodes cs" and "dirname = ''.'' \<or> \<not> hidden (Base dirname)"
  shows "GetAllFiles dirname (Dir n sz cs) = map (mkFileInfo dirname) (visible_under dirname cs)"
  using walk_visible(2)[OF assms(1), of dirname dirname] scan_root[OF assms(2), of sz]
  by (simp add: GetAllFiles_def)

text \<open>
  The example of the specification: under \<^verbatim>\<open>/r\<close> with \<^verbatim>\<open>.git/config\<close>, \<^verbatim>\<open>.hidden\<close>
  and \<^verbatim>\<open>visible.txt\<close>, only \<^verbatim>\<open>visible.txt\<close> is sent.
\<close>

theorem enumerates_visible_entries_witness:
  "GetAllFiles ''/r'' (Dir ''r'' 4096 r_entries)
     = [\<lparr>path = ''/r/visible.txt'', key = ''visible.txt'',
         fileInfo = \<lparr>IsDir = False, Size = 12\<rparr>\<rparr>]"
proof -
  have v: "valid_nodes r_entries"
    by (simp add: r_entries_def valid_name_def)
  have b: "''/r'' = ''.'' \<or> \<not> hidden (Base ''/r'')"
    by (simp add: Base_def hidden_def)
  have j: "Join ''/r'' ''visible.txt'' = ''/r/visible.txt''"
    by (simp add: Join_def Clean_def splitSlash_def cleanStep_def)
  show ?thesis
    unfolding enumerates_visible_entries[OF v b]
    by (simp add: r_entries_def hidden_def j mkFileInfo_def TrimPrefix_def)
qed

text \<open>
  Claim C7 as stated fails at two roots. A root that is not a directory is sent itself,
  with the empty key. A root given as \<^verbatim>\<open>..\<close> is not the path \<^verbatim>\<open>.\<close> that line 232
  lets through, its base name starts with a dot, and the closure answers
  \<^verbatim>\<open>SkipDir\<close> for the root: nothing is sent, although the root holds a visible file.
\<close>

theorem root_file_or_dotted_root_counterexample:
  "GetAllFiles ''index.html'' (File ''index.html'' 10)
     = [\<lparr>path = ''index.html'', key = [], fileInfo = \<lparr>IsDir = False, Size = 10\<rparr>\<rparr>]
   \<and> GetAllFiles ''..'' (Dir ''site'' 4096 [File ''visible.txt'' 12]) = []
   \<and> visible_under ''..'' [File ''visible.txt'' 12]
       = [(''../visible.txt'', \<lparr>IsDir = False, Size = 12\<rparr>)]"
  by (simp add: GetAllFiles_def scan_def Base_def TrimPrefix_def hidden_def
      Join_def Clean_def splitSlash_def cleanStep_def)

section \<open>Two runs in succession\<close>

text \<open>
  The inventory built from a listing maps every key to the digest of the bytes stored
  under it; a put changes it at the key of the put only.
\<close>

lemma strip_ETag: "take (length (ETag ext b) - 2) (drop (Suc 0) (ETag ext b)) = md5hex ext b"
  by (simp add: ETag_def)

lemma recordKeys_listing:
  "recordKeys (ListObjectsV2 ext objects) m = Some (foldl (remember ext) m objects)"
proof (induction objects arbitrary: m)
  case Nil
  show ?case by (simp add: ListObjectsV2_def)
next
  case (Cons kb objects)
  have l: "\<not> length (ETag ext (snd kb)) < 2" by (simp add: ETag_def)
  have "recordKeys (ListObjectsV2 ext (kb # objects)) m
      = recordKeys (ListObjectsV2 ext objects) (remember ext m kb)"
    using l by (simp add: ListObjectsV2_def strip_ETag remember_def del: fun_upd_apply)
  also have "\<dots> = Some (foldl (remember ext) (remember ext m kb) objects)"
    by (rule Cons)
  finally show ?case by simp
qed

lemma recordKeys_inventory:
  "recordKeys (ListObjectsV2 ext objects) Map.empty = Some (inventory ext objects)"
  by (simp add: recordKeys_listing inventory_def)

lemma foldl_remember_other:
  "m k' = m' k' \<Longrightarrow> k' \<noteq> k \<Longrightarrow>
   foldl (remember ext) m (filter (\<lambda>kv. fst kv \<noteq> k) objects) k'
     = foldl (remember ext) m' objects k'"
proof (induction objects arbitrary: m m')
  case Nil
  then show ?case by simp
next
  case (Cons kb objects)
  show ?case
  proof (cases "fst kb = k")
    case True
    have "m k' = (remember ext m' kb) k'"
      using Cons.prems True by (simp add: remember_def)
    then have "foldl (remember ext) m (filter (\<lambda>kv. fst kv \<noteq> k) objects) k'
       = foldl (remember ext) (remember ext m' kb) objects k'"
      using Cons.prems(2) by (rule Cons.IH)
    with True show ?thesis by simp
  next
    case False
    have "(remember ext m kb) k' = (remember ext m' kb) k'"
      using Cons.prems by (simp add: remember_def)
    then have "foldl (remember ext) (remember ext m kb) (filter (\<lambda>kv. fst kv \<noteq> k) objects) k'
       = foldl (remember ext) (remember ext m' kb) objects k'"
      using Cons.prems(2) by (rule Cons.IH)
    with False show ?thesis by simp
  qed
qed

lemma foldl_remember_same:
  "m k = Some v \<Longrightarrow>
   foldl (remember ext) m (filter (\<lambda>kv. fst kv \<noteq> k) objects) k = Some v"
proof (induction objects arbitrary: m)
  case Nil
  then show ?case by simp
next
  case (Cons kb objects)
  show ?case
  proof (cases "fst kb = k")
    case True
    with Cons show ?thesis by simp
  next
    case False
    with Cons.prems have "(remember ext m kb) k = Some v" by (simp add: remember_def)
    then have "foldl (remember ext) (remember ext m kb) (filter (\<lambda>kv. fst kv \<noteq> k) objects) k = Some v"
      by (rule Cons.IH)
    with False show ?thesis by simp
  qed
qed

lemma inventory_put_same:
  "inventory ext ((k, b) # filter (\<lambda>kv. fst kv \<noteq> k) objects) k = Some (md5hex ext b)"
  by (simp add: inventory_def foldl_remember_same remember_def)

lemma inventory_put_other:
  assumes "k' \<noteq> k"
  shows "inventory ext ((k, b) # filter (\<lambda>kv. fst kv \<noteq> k) objects) k' = inventory ext objects k'"
proof -
  have "(remember ext Map.empty (k, b)) k' = Map.empty k'"
    using assms by (simp add: remember_def)
  then have "foldl (remember ext) (remember ext Map.empty (k, b)) (filter (\<lambda>kv. fst kv \<noteq> k) objects) k'
     = foldl (remember ext) Map.empty objects k'"
    using assms by (rule foldl_remember_other)
  then show ?thesis by (simp add: inventory_def)
qed

text \<open>
  One iteration writes no local file but the temporary one, leaves the bucket alone up to
  the comparison, and stops the process whenever it does not reach the comparison.
\<close>

lemma compress_files_other:
  assumes "compress ext file w = (w1, up, ce)" "TempFile ext (files w) \<noteq> Some q"
  shows "files w1 q = files w q"
  using assms
  by (auto simp: compress_def Let_def println_def exit_process_def panic_def
      split: option.splits if_splits)

lemma compress_remote: "compress ext file w = (w1, up, ce) \<Longrightarrow> remote w1 = remote w"
  by (auto simp: compress_def Let_def println_def exit_process_def panic_def
      split: option.splits if_splits)

lemma transform_files_other:
  assumes "transform ext file w = (w1, up, ce)" "TempFile ext (files w) \<noteq> Some q"
  shows "files w1 q = files w q"
  using assms by (auto simp: transform_def split: if_splits dest: compress_files_other)

lemma transform_remote: "transform ext file w = (w1, up, ce) \<Longrightarrow> remote w1 = remote w"
  by (auto simp: transform_def split: if_splits dest: compress_remote)

lemma contentTypeOf_remote: "contentTypeOf ext file w = (w1, ct) \<Longrightarrow> remote w1 = remote w"
  by (auto simp: contentTypeOf_def sniff_def Let_def println_def exit_process_def
      split: option.splits if_splits)

lemma prepare_remote: "prepare ext file w = (w2, r) \<Longrightarrow> remote w2 = remote w"
  by (auto simp: prepare_def exit_process_def split: prod.splits if_splits option.splits
      dest!: transform_remote contentTypeOf_remote)

lemma prepare_files_other:
  assumes "prepare ext file w = (w2, r)" "TempFile ext (files w) \<noteq> Some q"
  shows "files w2 q = files w q"
proof -
  obtain w1 up ce where t: "transform ext file w = (w1, up, ce)"
    by (cases "transform ext file w") auto
  obtain w1' ct where c: "contentTypeOf ext file w1 = (w1', ct)"
    by (cases "contentTypeOf ext file w1") auto
  have f1: "files w1 q = files w q" using transform_files_other[OF t assms(2)] .
  have f2: "files w1' = files w1" using contentTypeOf_files[OF c] .
  from assms(1) t c have "files w2 = files w1 \<or> files w2 = files w1'"
    by (auto simp: prepare_def exit_process_def split: if_splits option.splits)
  with f1 f2 show ?thesis by auto
qed

lemma prepare_None_stopped: "prepare ext file w = (w2, None) \<Longrightarrow> status w2 \<noteq> Running"
  by (auto simp: prepare_def exit_process_def split: prod.splits if_splits option.splits)

lemma prepare_digest:
  assumes p: "prepare ext file w = (w2, Some p)"
    and fresh: "TempFile ext (files w) \<noteq> Some (path file)"
    and agree: "files w (path file) = fs (path file)"
  shows "hash p = upload_digest ext fs file"
proof (cases "shouldCompress file")
  case True
  from prepare_compressed[OF p True]
  have t: "TempFile ext (files w) = Some (uploadPath p)"
    and f: "files w2 = (files w)(uploadPath p \<mapsto> gzipBest ext
              (case ((files w)(uploadPath p \<mapsto> [])) (path file) of None \<Rightarrow> [] | Some b \<Rightarrow> b))"
    by simp_all
  from t fresh have ne: "uploadPath p \<noteq> path file" by auto
  have "files w2 (uploadPath p) = Some (gzipBest ext (content (files w) (path file)))"
    using ne by (subst f) (simp add: content_def)
  with prepare_hash[OF p] agree True show ?thesis
    by (simp add: upload_digest_def content_def)
next
  case False
  from prepare_uncompressed[OF p False] prepare_hash[OF p] agree False show ?thesis
    by (simp add: upload_digest_def content_def)
qed

lemma compare_and_upload_skipped:
  "s3Keys (key file) = Some (hash p) \<Longrightarrow> \<not> reUpload \<Longrightarrow> hashErr p = None \<Longrightarrow>
   compare_and_upload ext bucket s3Keys reUpload file p w = w"
  by (simp add: compare_and_upload_def index_ok_def)

lemma compare_and_upload_files:
  "files (compare_and_upload ext bucket s3Keys reUpload file p w) = files w"
  by (auto simp: compare_and_upload_def index_ok_def println_def Let_def exit_process_def
      panic_def Upload_def split: option.splits prod.splits if_splits)

lemma compare_and_upload_done:
  assumes "status (compare_and_upload ext bucket s3Keys reUpload file p w) = Running"
    and "list_all snd (uploads (compare_and_upload ext bucket s3Keys reUpload file p w))"
    and "\<not> (s3Keys (key file) = Some (hash p) \<and> \<not> reUpload)"
  shows "\<exists>b. files w (uploadPath p) = Some b
           \<and> remote (compare_and_upload ext bucket s3Keys reUpload file p w)
               = (key file, b) # filter (\<lambda>kv. fst kv \<noteq> key file) (remote w)"
  using assms
  by (auto simp: compare_and_upload_def index_ok_def println_def Let_def exit_process_def
      panic_def Upload_def upParams_def split: option.splits prod.splits if_splits)

text \<open>The list of upload calls only grows.\<close>

lemma handle_file_uploads_grow:
  "\<exists>more. uploads (handle_file ext bucket s3Keys reUpload file w) = uploads w @ more"
proof (cases "prepare ext file w")
  case (Pair w2 r)
  show ?thesis
  proof (cases r)
    case None
    with Pair show ?thesis by (simp add: handle_file_def prepare_uploads)
  next
    case (Some p)
    show ?thesis
    proof (cases "s3Keys (key file) = Some (hash p) \<and> \<not> reUpload")
      case True
      with Pair Some show ?thesis
        by (simp add: handle_file_def compare_and_upload_skip prepare_uploads)
    next
      case False
      then have "s3Keys (key file) \<noteq> Some (hash p) \<or> reUpload" by blast
      then have "\<exists>ok. uploads (compare_and_upload ext bucket s3Keys reUpload file p w2)
           = uploads w2 @ [(upParams bucket file p (files w2 (uploadPath p)), ok)]"
        by (rule compare_and_upload_upload)
      with Pair Some show ?thesis
        by (auto simp: handle_file_def prepare_uploads)
    qed
  qed
qed

lemma UploadFileHandler_uploads_grow:
  "\<exists>more. uploads (UploadFileHandler ext bucket s3Keys reUpload fs w) = uploads w @ more"
proof (induction fs arbitrary: w)
  case Nil
  show ?case by simp
next
  case (Cons x fs)
  obtain m1 where m1: "uploads (handle_file ext bucket s3Keys reUpload x w) = uploads w @ m1"
    using handle_file_uploads_grow by blast
  obtain m2 where "uploads (UploadFileHandler ext bucket s3Keys reUpload fs
        (handle_file ext bucket s3Keys reUpload x w))
      = uploads (handle_file ext bucket s3Keys reUpload x w) @ m2"
    using Cons by blast
  with m1 show ?case by (simp add: Let_def)
qed

text \<open>
  A first run that went through with every put accepted leaves, under the key of every
  file handled, bytes whose digest is the one the worker computes for that file; a run
  without the force flag that finds this skips the file.
\<close>

lemma handle_file_first_run:
  assumes st: "status (handle_file ext bucket K r file w) = Running"
    and ok: "list_all snd (uploads (handle_file ext bucket K r file w))"
    and fresh: "\<forall>fs' t. TempFile ext fs' = Some t \<longrightarrow> t \<notin> P"
    and inP: "path file \<in> P"
    and agree: "\<forall>q\<in>P. files w q = F q"
    and inv: "inventory ext (remote w) (key file) = K (key file)"
  shows "(\<forall>q\<in>P. files (handle_file ext bucket K r file w) q = F q)
       \<and> inventory ext (remote (handle_file ext bucket K r file w)) (key file)
           = Some (upload_digest ext F file)
       \<and> (\<forall>k. k \<noteq> key file \<longrightarrow>
             inventory ext (remote (handle_file ext bucket K r file w)) k
               = inventory ext (remote w) k)"
proof (cases "prepare ext file w")
  case (Pair w2 res)
  show ?thesis
  proof (cases res)
    case None
    with Pair st prepare_None_stopped show ?thesis
      by (auto simp: handle_file_def)
  next
    case (Some p)
    note pr = Pair[unfolded Some]
    have hf: "handle_file ext bucket K r file w = compare_and_upload ext bucket K r file p w2"
      using pr by (simp add: handle_file_def)
    have ag2: "\<forall>q\<in>P. files w2 q = F q"
    proof
      fix q assume q: "q \<in> P"
      with fresh have "TempFile ext (files w) \<noteq> Some q" by auto
      from prepare_files_other[OF pr this] agree q show "files w2 q = F q" by simp
    qed
    have fr: "TempFile ext (files w) \<noteq> Some (path file)" using fresh inP by auto
    have ag: "files w (path file) = F (path file)" using agree inP by simp
    have h: "hash p = upload_digest ext F file" using prepare_digest[where fs=F, OF pr fr ag] .
    have he: "hashErr p = None" using prepare_hash[OF pr] by simp
    have rm: "remote w2 = remote w" using prepare_remote[OF pr] .
    have files: "\<forall>q\<in>P. files (handle_file ext bucket K r file w) q = F q"
      using ag2 by (simp add: hf compare_and_upload_files)
    show ?thesis
    proof (cases "K (key file) = Some (hash p) \<and> \<not> r")
      case True
      then have k: "K (key file) = Some (hash p)" and nr: "\<not> r" by simp_all
      have "handle_file ext bucket K r file w = w2"
        unfolding hf using k nr he by (rule compare_and_upload_skipped)
      with files True inv h rm show ?thesis by simp
    next
      case False
      from compare_and_upload_done[OF st[unfolded hf] ok[unfolded hf] False]
      obtain b where b: "files w2 (uploadPath p) = Some b"
        and r': "remote (handle_file ext bucket K r file w)
               = (key file, b) # filter (\<lambda>kv. fst kv \<noteq> key file) (remote w)"
        using rm by (auto simp: hf)
      from prepare_hash[OF pr] b have "hash p = md5hex ext b" by simp
      with h have d: "md5hex ext b = upload_digest ext F file" by simp
      show ?thesis
        using files d by (simp add: r' inventory_put_same inventory_put_other)
    qed
  qed
qed

lemma handle_file_second_run:
  assumes fresh: "\<forall>fs' t. TempFile ext fs' = Some t \<longrightarrow> t \<notin> P"
    and inP: "path file \<in> P"
    and agree: "\<forall>q\<in>P. files w q = F q"
    and inv: "K (key file) = Some (upload_digest ext F file)"
  shows "uploads (handle_file ext bucket K False file w) = uploads w
       \<and> (\<forall>q\<in>P. files (handle_file ext bucket K False file w) q = F q)"
proof (cases "prepare ext file w")
  case (Pair w2 res)
  have ag2: "\<forall>q\<in>P. files w2 q = F q"
  proof
    fix q assume q: "q \<in> P"
    with fresh have "TempFile ext (files w) \<noteq> Some q" by auto
    from prepare_files_other[OF Pair this] agree q show "files w2 q = F q" by simp
  qed
  show ?thesis
  proof (cases res)
    case None
    with Pair ag2 show ?thesis by (simp add: handle_file_def prepare_uploads)
  next
    case (Some p)
    note pr = Pair[unfolded Some]
    have fr: "TempFile ext (files w) \<noteq> Some (path file)" using fresh inP by auto
    have ag: "files w (path file) = F (path file)" using agree inP by simp
    have h: "hash p = upload_digest ext F file" using prepare_digest[where fs=F, OF pr fr ag] .
    have he: "hashErr p = None" using prepare_hash[OF pr] by simp
    have "handle_file ext bucket K False file w = w2"
      using pr h he inv by (simp add: handle_file_def compare_and_upload_skipped)
    with ag2 prepare_uploads[OF pr] show ?thesis by simp
  qed
qed

lemma UploadFileHandler_first_run:
  assumes "status (UploadFileHandler ext bucket K r fs w) = Running"
    and "list_all snd (uploads (UploadFileHandler ext bucket K r fs w))"
    and "\<forall>fs' t. TempFile ext fs' = Some t \<longrightarrow> t \<notin> P"
    and "path ` set fs \<subseteq> P"
    and "\<forall>q\<in>P. files w q = F q"
    and "distinct (map key fs)"
    and "\<forall>x\<in>set fs. inventory ext (remote w) (key x) = K (key x)"
  shows "(\<forall>q\<in>P. files (UploadFileHandler ext bucket K r fs w) q = F q)
       \<and> (\<forall>x\<in>set fs. inventory ext (remote (UploadFileHandler ext bucket K r fs w)) (key x)
              = Some (upload_digest ext F x))
       \<and> (\<forall>k. k \<notin> key ` set fs \<longrightarrow>
             inventory ext (remote (UploadFileHandler ext bucket K r fs w)) k
               = inventory ext (remote w) k)"
  using assms
proof (induction fs arbitrary: w)
  case Nil
  then show ?case by simp
next
  case (Cons x fs)
  define w1 where "w1 = handle_file ext bucket K r x w"
  have run: "status w1 = Running"
    using Cons.prems(1) by (auto simp: w1_def Let_def split: if_splits)
  then have res: "UploadFileHandler ext bucket K r (x # fs) w = UploadFileHandler ext bucket K r fs w1"
    by (simp add: w1_def Let_def)
  obtain more where more: "uploads (UploadFileHandler ext bucket K r fs w1) = uploads w1 @ more"
    using UploadFileHandler_uploads_grow by blast
  have ok1: "list_all snd (uploads w1)"
    using Cons.prems(2)[unfolded res] more by simp
  have inP: "path x \<in> P" using Cons.prems(4) by simp
  have inv: "inventory ext (remote w) (key x) = K (key x)" using Cons.prems(7) by simp
  from handle_file_first_run[where F=F and K=K and P=P, OF run[unfolded w1_def]
      ok1[unfolded w1_def] Cons.prems(3) inP Cons.prems(5) inv]
  have ag1: "\<forall>q\<in>P. files w1 q = F q"
    and d1: "inventory ext (remote w1) (key x) = Some (upload_digest ext F x)"
    and o1: "\<forall>k. k \<noteq> key x \<longrightarrow> inventory ext (remote w1) k = inventory ext (remote w) k"
    by (simp_all add: w1_def)
  have notin: "key x \<notin> key ` set fs" using Cons.prems(6) by simp
  have inv1: "\<forall>y\<in>set fs. inventory ext (remote w1) (key y) = K (key y)"
  proof
    fix y assume y: "y \<in> set fs"
    with notin have "key y \<noteq> key x" by (metis imageI)
    with o1 Cons.prems(7) y show "inventory ext (remote w1) (key y) = K (key y)" by simp
  qed
  have st': "status (UploadFileHandler ext bucket K r fs w1) = Running"
    using Cons.prems(1)[unfolded res] .
  have ok': "list_all snd (uploads (UploadFileHandler ext bucket K r fs w1))"
    using Cons.prems(2)[unfolded res] .
  have sub: "path ` set fs \<subseteq> P" using Cons.prems(4) by simp
  have dist: "distinct (map key fs)" using Cons.prems(6) by simp
  from Cons.IH[OF st' ok' Cons.prems(3) sub ag1 dist inv1]
  have a: "\<forall>q\<in>P. files (UploadFileHandler ext bucket K r fs w1) q = F q"
    and b: "\<forall>y\<in>set fs. inventory ext (remote (UploadFileHandler ext bucket K r fs w1)) (key y)
              = Some (upload_digest ext F y)"
    and c: "\<forall>k. k \<notin> key ` set fs \<longrightarrow>
             inventory ext (remote (UploadFileHandler ext bucket K r fs w1)) k
               = inventory ext (remote w1) k"
    by simp_all
  have bx: "inventory ext (remote (UploadFileHandler ext bucket K r fs w1)) (key x)
              = Some (upload_digest ext F x)"
    using c notin d1 by simp
  have c': "\<forall>k. k \<notin> key ` set (x # fs) \<longrightarrow>
             inventory ext (remote (UploadFileHandler ext bucket K r fs w1)) k
               = inventory ext (remote w) k"
    using c o1 by simp
  show ?case unfolding res using a b bx c' by simp
qed

lemma UploadFileHandler_second_run:
  assumes "\<forall>fs' t. TempFile ext fs' = Some t \<longrightarrow> t \<notin> P"
    and "path ` set fs \<subseteq> P"
    and "\<forall>q\<in>P. files w q = F q"
    and "\<forall>x\<in>set fs. K (key x) = Some (upload_digest ext F x)"
  shows "uploads (UploadFileHandler ext bucket K False fs w) = uploads w"
  using assms
proof (induction fs arbitrary: w)
  case Nil
  show ?case by simp
next
  case (Cons x fs)
  have inP: "path x \<in> P" using Cons.prems(2) by simp
  have kx: "K (key x) = Some (upload_digest ext F x)" using Cons.prems(4) by simp
  from handle_file_second_run[where F=F and K=K and P=P, OF Cons.prems(1) inP Cons.prems(3) kx]
  have u: "uploads (handle_file ext bucket K False x w) = uploads w"
    and ag: "\<forall>q\<in>P. files (handle_file ext bucket K False x w) q = F q"
    by simp_all
  have sub: "path ` set fs \<subseteq> P" using Cons.prems(2) by simp
  have ks: "\<forall>y\<in>set fs. K (key y) = Some (upload_digest ext F y)" using Cons.prems(4) by simp
  from Cons.IH[OF Cons.prems(1) sub ag ks] u show ?case
    by (simp add: Let_def)
qed

lemma InvalidCloudFront_keeps:
  "uploads (InvalidCloudFront ext domain paths w) = uploads w
   \<and> files (InvalidCloudFront ext domain paths w) = files w
   \<and> remote (InvalidCloudFront ext domain paths w) = remote w"
proof -
  have f: "\<And>w0. uploads (fold (\<lambda>k. println (PrintKey k)) paths w0) = uploads w0
     \<and> files (fold (\<lambda>k. println (PrintKey k)) paths w0) = files w0
     \<and> remote (fold (\<lambda>k. println (PrintKey k)) paths w0) = remote w0"
  proof -
    fix w0 show "uploads (fold (\<lambda>k. println (PrintKey k)) paths w0) = uploads w0
     \<and> files (fold (\<lambda>k. println (PrintKey k)) paths w0) = files w0
     \<and> remote (fold (\<lambda>k. println (PrintKey k)) paths w0) = remote w0"
      by (induction paths arbitrary: w0) (simp_all add: println_def)
  qed
  show ?thesis
    by (simp add: InvalidCloudFront_def Let_def f println_def exit_process_def panic_def
        split: option.splits)
qed

text \<open>The sample directory, run once and run twice.\<close>

lemma site_files: "GetAllFiles ''site'' site_tree = [example_file]"
  by (simp add: GetAllFiles_def site_tree_def scan_def Base_def TrimPrefix_def
      Join_def Clean_def splitSlash_def cleanStep_def example_file_def)

lemma example_prepare_any:
  "files w ''site/a.txt'' = Some ''hello'' \<Longrightarrow> status w = Running \<Longrightarrow>
   prepare example_ext example_file w =
     (println (DetectedMIME ''application/octet-stream'') w,
      Some \<lparr>uploadPath = ''site/a.txt'', contentEncoding = [],
            contentType = ''application/octet-stream'', hash = ''md5:hello'', hashErr = None\<rparr>)"
  by (simp add: prepare_def transform_def shouldCompress_size example_file_def
      contentTypeOf_def contentTypeMap_miss sniff_def example_ext_def println_def Hashfile_def
      Let_def)

lemma a_txt_parses: "map_option URL_String (ParseRequestURI ''/a.txt'') = Some ''/a.txt''"
  by (simp add: ParseRequestURI_def stringContainsCTLByte_def setPath_def URL_String_def
      EscapedPath_def escape_def shouldEscape_def)

lemma example_handle_upload:
  assumes "files w ''site/a.txt'' = Some ''hello''" "status w = Running"
    "s3Keys ''a.txt'' \<noteq> Some ''md5:hello'' \<or> reUpload"
  shows "handle_file example_ext ''bucket'' s3Keys reUpload example_file w =
     w\<lparr>stdout := stdout w @ [DetectedMIME ''application/octet-stream'',
                              Uploading ''site/a.txt'' ''a.txt''],
       uploads := uploads w @
         [(\<lparr>Bucket = ''bucket'', Key = ''a.txt'', Body = Some ''hello'',
            CacheControl = ''max-age=900'', ContentEncoding = [],
            ContentType = ''application/octet-stream'', ACL = ''public-read''\<rparr>, True)],
       remote := (''a.txt'', ''hello'') # filter (\<lambda>kv. fst kv \<noteq> ''a.txt'') (remote w),
       doneChan := doneChan w @ [''/a.txt'']\<rparr>"
proof -
  have k: "key example_file = ''a.txt''" "path example_file = ''site/a.txt''"
    by (simp_all add: example_file_def)
  obtain u where u: "ParseRequestURI ''/a.txt'' = Some u" "URL_String u = ''/a.txt''"
    using a_txt_parses by auto
  show ?thesis
    unfolding handle_file_def example_prepare_any[OF assms(1,2)]
    using assms u
    by (auto simp: compare_and_upload_def index_ok_def k println_def Upload_def upParams_def
        Let_def example_ext_def split: option.splits)
qed

lemma example_sync_step:
  assumes "files w ''site/a.txt'' = Some ''hello''" "status w = Running"
    "inventory example_ext (remote w) ''a.txt'' \<noteq> Some ''md5:hello'' \<or> reUpload"
  shows "uploads (Sync example_ext ''bucket'' ''site'' reUpload 1 site_tree w)
       = uploads w @
         [(\<lparr>Bucket = ''bucket'', Key = ''a.txt'', Body = Some ''hello'',
            CacheControl = ''max-age=900'', ContentEncoding = [],
            ContentType = ''application/octet-stream'', ACL = ''public-read''\<rparr>, True)]
     \<and> status (Sync example_ext ''bucket'' ''site'' reUpload 1 site_tree w) = Running
     \<and> files (Sync example_ext ''bucket'' ''site'' reUpload 1 site_tree w) = files w
     \<and> remote (Sync example_ext ''bucket'' ''site'' reUpload 1 site_tree w)
         = (''a.txt'', ''hello'') # filter (\<lambda>kv. fst kv \<noteq> ''a.txt'') (remote w)"
proof -
  have l: "\<not> listObjectsFails example_ext" by (simp add: example_ext_def)
  define w1 where "w1 = handle_file example_ext ''bucket'' (inventory example_ext (remote w))
      reUpload example_file w"
  have h: "w1 = w\<lparr>stdout := stdout w @ [DetectedMIME ''application/octet-stream'',
                              Uploading ''site/a.txt'' ''a.txt''],
       uploads := uploads w @
         [(\<lparr>Bucket = ''bucket'', Key = ''a.txt'', Body = Some ''hello'',
            CacheControl = ''max-age=900'', ContentEncoding = [],
            ContentType = ''application/octet-stream'', ACL = ''public-read''\<rparr>, True)],
       remote := (''a.txt'', ''hello'') # filter (\<lambda>kv. fst kv \<noteq> ''a.txt'') (remote w),
       doneChan := doneChan w @ [''/a.txt'']\<rparr>"
    unfolding w1_def using assms by (rule example_handle_upload)
  have r1: "status w1 = Running" using assms(2) by (simp add: h)
  have s: "Sync example_ext ''bucket'' ''site'' reUpload 1 site_tree w
      = InvalidCloudFront example_ext ''bucket'' (doneChan w1) w1"
    using l r1 by (simp add: Sync_def recordKeys_inventory site_files Let_def w1_def)
  have st: "status (InvalidCloudFront example_ext ''bucket'' (doneChan w1) w1) = Running"
  proof -
    have f: "\<And>ps w0. status (fold (\<lambda>k. println (PrintKey k)) ps w0) = status w0"
    proof -
      fix ps w0 show "status (fold (\<lambda>k. println (PrintKey k)) ps w0) = status w0"
        by (induction ps arbitrary: w0) (simp_all add: println_def)
    qed
    show ?thesis
      using r1 by (simp add: InvalidCloudFront_def Let_def example_ext_def f println_def)
  qed
  show ?thesis
    unfolding s using st by (simp add: InvalidCloudFront_keeps h)
qed

text \<open>
  Claim C9, amended. Take a run that ended normally with every put accepted, whatever its
  force flag, and run the engine again on what it left, with the same collaborators, the
  same tree and the same worker count, the force flag off and a listing that succeeds.
  Provided the enumerated files have pairwise different keys and no temporary file takes
  the path of an enumerated file, the second run makes no upload call.
\<close>

theorem second_run_uploads_nothing:
  assumes "status (Sync ext bucket dirname r n root w0) = Running"
    and "list_all snd (uploads (Sync ext bucket dirname r n root w0))"
    and "\<not> listObjectsFails ext"
    and "distinct (map key (GetAllFiles dirname root))"
    and "\<forall>fs t. TempFile ext fs = Some t \<longrightarrow> t \<notin> path ` set (GetAllFiles dirname root)"
  shows "uploads (Sync ext bucket dirname False n root
            (next_run (Sync ext bucket dirname r n root w0))) = []"
proof -
  define fs where "fs = GetAllFiles dirname root"
  define P where "P = path ` set fs"
  define K1 where "K1 = inventory ext (remote w0)"
  define w' where "w' = UploadFileHandler ext bucket K1 r fs w0"
  define ws where "ws = next_run (Sync ext bucket dirname r n root w0)"
  define K2 where "K2 = inventory ext (remote ws)"
  have s2: "Sync ext bucket dirname False n root ws =
      (if n < 0 then panic ws
       else (let w1 = (if n = 0 then ws else UploadFileHandler ext bucket K2 False fs ws)
             in if status w1 \<noteq> Running then w1 else InvalidCloudFront ext bucket (doneChan w1) w1))"
    using assms(3) by (simp add: Sync_def recordKeys_inventory fs_def K2_def)
  have ws0: "uploads ws = []" by (simp add: ws_def next_run_def)
  show ?thesis
  proof (cases "n \<le> 0")
    case True
    then show ?thesis
      unfolding ws_def[symmetric] s2
      by (auto simp: ws0 panic_def Let_def InvalidCloudFront_keeps)
  next
    case False
    then have s1: "Sync ext bucket dirname r n root w0 =
        (if status w' \<noteq> Running then w' else InvalidCloudFront ext bucket (doneChan w') w')"
      using assms(3) by (simp add: Sync_def recordKeys_inventory fs_def K1_def w'_def Let_def)
    have run: "status w' = Running"
      using assms(1) unfolding s1 by (auto split: if_splits)
    have same: "uploads (Sync ext bucket dirname r n root w0) = uploads w'"
      "files (Sync ext bucket dirname r n root w0) = files w'"
      "remote (Sync ext bucket dirname r n root w0) = remote w'"
      unfolding s1 by (simp_all add: InvalidCloudFront_keeps)
    have ok: "list_all snd (uploads w')" using assms(2) same by simp
    have fresh: "\<forall>fs' t. TempFile ext fs' = Some t \<longrightarrow> t \<notin> P"
      using assms(5) by (simp add: P_def fs_def)
    have sub: "path ` set fs \<subseteq> P" by (simp add: P_def)
    have ag0: "\<forall>q\<in>P. files w0 q = files w0 q" by simp
    have dist: "distinct (map key fs)" using assms(4) by (simp add: fs_def)
    have inv0: "\<forall>x\<in>set fs. inventory ext (remote w0) (key x) = K1 (key x)"
      by (simp add: K1_def)
    from UploadFileHandler_first_run[where F="files w0" and K=K1 and P=P,
        OF run[unfolded w'_def] ok[unfolded w'_def] fresh sub ag0 dist inv0]
    have ag: "\<forall>q\<in>P. files w' q = files w0 q"
      and dg: "\<forall>x\<in>set fs. inventory ext (remote w') (key x) = Some (upload_digest ext (files w0) x)"
      by (simp_all add: w'_def)
    have fws: "files ws = files w'" and rws: "remote ws = remote w'"
      using same by (simp_all add: ws_def next_run_def)
    have ag': "\<forall>q\<in>P. files ws q = files w0 q" using ag fws by simp
    have dg': "\<forall>x\<in>set fs. K2 (key x) = Some (upload_digest ext (files w0) x)"
      using dg rws by (simp add: K2_def)
    have u: "uploads (UploadFileHandler ext bucket K2 False fs ws) = []"
      using UploadFileHandler_second_run[where F="files w0" and K=K2 and P=P,
          OF fresh sub ag' dg'] ws0 by simp
    show ?thesis
      unfolding ws_def[symmetric] s2 using False u
      by (auto simp: Let_def InvalidCloudFront_keeps)
  qed
qed

text \<open>The sample directory: the first run uploads its one file, the second nothing.\<close>

theorem second_run_uploads_nothing_witness:
  "uploads (Sync example_ext ''bucket'' ''site'' False 1 site_tree example_world)
     = [(\<lparr>Bucket = ''bucket'', Key = ''a.txt'', Body = Some ''hello'',
          CacheControl = ''max-age=900'', ContentEncoding = [],
          ContentType = ''application/octet-stream'', ACL = ''public-read''\<rparr>, True)]
   \<and> uploads (Sync example_ext ''bucket'' ''site'' False 1 site_tree
        (next_run (Sync example_ext ''bucket'' ''site'' False 1 site_tree example_world))) = []"
proof -
  have f: "files example_world ''site/a.txt'' = Some ''hello''" "status example_world = Running"
    "inventory example_ext (remote example_world) ''a.txt'' \<noteq> Some ''md5:hello'' \<or> False"
    by (simp_all add: example_world_def inventory_def)
  note s = example_sync_step[OF f]
  have u: "uploads (Sync example_ext ''bucket'' ''site'' False 1 site_tree example_world)
     = [(\<lparr>Bucket = ''bucket'', Key = ''a.txt'', Body = Some ''hello'',
          CacheControl = ''max-age=900'', ContentEncoding = [],
          ContentType = ''application/octet-stream'', ACL = ''public-read''\<rparr>, True)]"
    using s by (simp add: example_world_def)
  have h1: "status (Sync example_ext ''bucket'' ''site'' False 1 site_tree example_world) = Running"
    using s by simp
  have h2: "list_all snd (uploads (Sync example_ext ''bucket'' ''site'' False 1 site_tree example_world))"
    by (simp add: u)
  have h3: "\<not> listObjectsFails example_ext" by (simp add: example_ext_def)
  have h4: "distinct (map key (GetAllFiles ''site'' site_tree))" by (simp add: site_files)
  have h5: "\<forall>fs t. TempFile example_ext fs = Some t \<longrightarrow> t \<notin> path ` set (GetAllFiles ''site'' site_tree)"
    by (simp add: site_files example_ext_def example_file_def)
  from second_run_uploads_nothing[OF h1 h2 h3 h4 h5] u show ?thesis by simp
qed

lemma rejecting_sync_step:
  assumes "files w ''site/a.txt'' = Some ''hello''" "status w = Running" "remote w = []"
  shows "uploads (Sync rejecting_ext ''bucket'' ''site'' False 1 site_tree w)
       = uploads w @
         [(\<lparr>Bucket = ''bucket'', Key = ''a.txt'', Body = Some ''hello'',
            CacheControl = ''max-age=900'', ContentEncoding = [],
            ContentType = ''application/octet-stream'', ACL = ''public-read''\<rparr>, False)]
     \<and> status (Sync rejecting_ext ''bucket'' ''site'' False 1 site_tree w) = Running
     \<and> files (Sync rejecting_ext ''bucket'' ''site'' False 1 site_tree w) = files w
     \<and> remote (Sync rejecting_ext ''bucket'' ''site'' False 1 site_tree w) = []"
proof -
  have l: "\<not> listObjectsFails rejecting_ext" by (simp add: rejecting_ext_def example_ext_def)
  have p: "prepare rejecting_ext example_file w =
     (println (DetectedMIME ''application/octet-stream'') w,
      Some \<lparr>uploadPath = ''site/a.txt'', contentEncoding = [],
            contentType = ''application/octet-stream'', hash = ''md5:hello'', hashErr = None\<rparr>)"
    using assms(1,2)
    by (simp add: prepare_def transform_def shouldCompress_size example_file_def
        contentTypeOf_def contentTypeMap_miss sniff_def rejecting_ext_def example_ext_def
        println_def Hashfile_def Let_def)
  define w1 where "w1 = handle_file rejecting_ext ''bucket'' Map.empty False example_file w"
  have h: "w1 = w\<lparr>stdout := stdout w @ [DetectedMIME ''application/octet-stream'',
                              Uploading ''site/a.txt'' ''a.txt''],
       uploads := uploads w @
         [(\<lparr>Bucket = ''bucket'', Key = ''a.txt'', Body = Some ''hello'',
            CacheControl = ''max-age=900'', ContentEncoding = [],
            ContentType = ''application/octet-stream'', ACL = ''public-read''\<rparr>, False)]\<rparr>"
    unfolding w1_def handle_file_def p using assms(1)
    by (simp add: compare_and_upload_def index_ok_def println_def Upload_def upParams_def
        Let_def rejecting_ext_def example_ext_def example_file_def)
  have r1: "status w1 = Running" "doneChan w1 = doneChan w" using assms(2) by (simp_all add: h)
  have s: "Sync rejecting_ext ''bucket'' ''site'' False 1 site_tree w
      = InvalidCloudFront rejecting_ext ''bucket'' (doneChan w1) w1"
    using l r1 assms(3)
    by (simp add: Sync_def ListObjectsV2_def site_files Let_def w1_def)
  have f: "\<And>ps w0. status (fold (\<lambda>k. println (PrintKey k)) ps w0) = status w0"
  proof -
    fix ps w0 show "status (fold (\<lambda>k. println (PrintKey k)) ps w0) = status w0"
      by (induction ps arbitrary: w0) (simp_all add: println_def)
  qed
  have st: "status (InvalidCloudFront rejecting_ext ''bucket'' (doneChan w1) w1) = Running"
    using r1 by (simp add: InvalidCloudFront_def Let_def rejecting_ext_def example_ext_def f
        println_def)
  show ?thesis
    unfolding s using st assms(3) by (simp add: InvalidCloudFront_keeps h)
qed

text \<open>
  Claim C9 as stated fails in two ways, both over the unchanged sample directory and
  against the bucket the first run left. With the force flag set, the second run uploads
  the file again. With the flag off and a first run whose put was rejected, the bucket is
  still empty and the second run uploads the file.
\<close>

theorem forced_or_failed_second_run_counterexample:
  "uploads (Sync example_ext ''bucket'' ''site'' True 1 site_tree
        (next_run (Sync example_ext ''bucket'' ''site'' True 1 site_tree example_world)))
     = [(\<lparr>Bucket = ''bucket'', Key = ''a.txt'', Body = Some ''hello'',
          CacheControl = ''max-age=900'', ContentEncoding = [],
          ContentType = ''application/octet-stream'', ACL = ''public-read''\<rparr>, True)]
   \<and> uploads (Sync example_ext ''bucket'' ''site'' False 1 site_tree
        (next_run (Sync rejecting_ext ''bucket'' ''site'' False 1 site_tree example_world)))
     = [(\<lparr>Bucket = ''bucket'', Key = ''a.txt'', Body = Some ''hello'',
          CacheControl = ''max-age=900'', ContentEncoding = [],
          ContentType = ''application/octet-stream'', ACL = ''public-read''\<rparr>, True)]"
proof -
  have f: "files example_world ''site/a.txt'' = Some ''hello''" "status example_world = Running"
    "inventory example_ext (remote example_world) ''a.txt'' \<noteq> Some ''md5:hello'' \<or> True"
    by (simp_all add: example_world_def)
  note s = example_sync_step[OF f]
  define ws where "ws = next_run (Sync example_ext ''bucket'' ''site'' True 1 site_tree example_world)"
  have g: "files ws ''site/a.txt'' = Some ''hello''" "status ws = Running"
    "inventory example_ext (remote ws) ''a.txt'' \<noteq> Some ''md5:hello'' \<or> True"
    using s by (simp_all add: ws_def next_run_def example_world_def)
  have "uploads ws = []" by (simp add: ws_def next_run_def)
  with example_sync_step[OF g] have forced: "uploads (Sync example_ext ''bucket'' ''site'' True 1 site_tree
        (next_run (Sync example_ext ''bucket'' ''site'' True 1 site_tree example_world)))
     = [(\<lparr>Bucket = ''bucket'', Key = ''a.txt'', Body = Some ''hello'',
          CacheControl = ''max-age=900'', ContentEncoding = [],
          ContentType = ''application/octet-stream'', ACL = ''public-read''\<rparr>, True)]"
    unfolding ws_def by simp
  have e: "remote example_world = []" by (simp add: example_world_def)
  note t = rejecting_sync_step[OF f(1,2) e]
  define wt where "wt = next_run (Sync rejecting_ext ''bucket'' ''site'' False 1 site_tree example_world)"
  have k: "files wt ''site/a.txt'' = Some ''hello''" "status wt = Running"
    "inventory example_ext (remote wt) ''a.txt'' \<noteq> Some ''md5:hello'' \<or> False"
    using t by (simp_all add: wt_def next_run_def example_world_def inventory_def)
  have "uploads wt = []" by (simp add: wt_def next_run_def)
  with example_sync_step[OF k] have failed: "uploads (Sync example_ext ''bucket'' ''site'' False 1 site_tree
        (next_run (Sync rejecting_ext ''bucket'' ''site'' False 1 site_tree example_world)))
     = [(\<lparr>Bucket = ''bucket'', Key = ''a.txt'', Body = Some ''hello'',
          CacheControl = ''max-age=900'', ContentEncoding = [],
          ContentType = ''application/octet-stream'', ACL = ''public-read''\<rparr>, True)]"
    unfolding wt_def by simp
  from forced failed show ?thesis by blast
qed

end
